theory Spec2Isabelle
  imports Main
begin

text \<open>
  The reservation lifecycle of the inventory reservation API: the two tables and the
  stored procedure of \<^verbatim>\<open>migration.sql\<close>, the item and reservation repositories, and
  the reservation, item and maintenance services, embedded as functions on an explicit
  database; then the admission and lifecycle properties of the specification, proved of
  these functions.
\<close>

section \<open>Data model\<close>

text \<open>
  The two tables of \<^verbatim>\<open>migration.sql\<close> and the domain types of
  \<^verbatim>\<open>reservation.types.ts\<close> / \<^verbatim>\<open>item.types.ts\<close>. A UUID is an opaque key, a
  \<^verbatim>\<open>TIMESTAMPTZ\<close> / JavaScript \<^verbatim>\<open>Date\<close> is a number of milliseconds, a quantity is
  an integer (the validators admit integers only). \<^verbatim>\<open>NOT NULL\<close> columns are not
  optional and the \<^verbatim>\<open>status\<close> check is the datatype. The width of an
  \<^verbatim>\<open>INTEGER\<close>, the length of a \<^verbatim>\<open>VARCHAR(255)\<close>, the \<^verbatim>\<open>CHECK\<close> constraints on
  values and the foreign key are branches of the statements that insert or compute.
  \<^verbatim>\<open>mapToReservation\<close> and \<^verbatim>\<open>mapToItem\<close> only rename the columns, so a row and
  its domain object are the same record here.
\<close>

type_synonym uuid = nat
type_synonym timestamp = int

datatype ReservationStatus = PENDING | CONFIRMED | CANCELLED | EXPIRED

record Item =
  i_id :: uuid
  name :: string
  total_quantity :: int
  i_created_at :: timestamp
  updated_at :: timestamp

record Reservation =
  r_id :: uuid
  item_id :: uuid
  customer_id :: string
  quantity :: int
  status :: ReservationStatus
  expires_at :: timestamp
  created_at :: timestamp
  confirmed_at :: "timestamp option"
  cancelled_at :: "timestamp option"
  expired_at :: "timestamp option"

record database =
  items :: "Item list"
  reservations :: "Reservation list"

text \<open>
  The error codes of \<^verbatim>\<open>error.types.ts\<close> that the services throw as \<^verbatim>\<open>AppError\<close>,
  with their \<^verbatim>\<open>details\<close>, and the plain \<^verbatim>\<open>Error\<close> the repositories throw when the
  storage layer reports a failure.
\<close>

datatype AppError =
    ITEM_NOT_FOUND
  | RESERVATION_NOT_FOUND
  | INSUFFICIENT_QUANTITY (requested: int) (available: int)
  | RESERVATION_EXPIRED (expiredAt: timestamp)
  | INVALID_STATUS_TRANSITION (currentStatus: ReservationStatus)
  | CONFIRMATION_FAILED
  | CANCELLATION_FAILED
  | Error string

datatype pg_exception =
    item_not_found
  | numeric_value_out_of_range
  | string_data_right_truncation
  | check_violation
  | foreign_key_violation

record ExpireReservationsResult =
  expiredCount :: nat
  expiredReservationIds :: "uuid list"

section \<open>Storage primitives\<close>

text \<open>
  \<^verbatim>\<open>.single()\<close>: exactly one row, otherwise the error \<^verbatim>\<open>PGRST116\<close>, which every
  caller in the repositories turns into \<^verbatim>\<open>null\<close>.
\<close>

definition single :: "'a list \<Rightarrow> 'a option" where
  "single rows = (case rows of [r] \<Rightarrow> Some r | _ \<Rightarrow> None)"

text \<open>
  \<^verbatim>\<open>INTEGER\<close> is 32 bits wide: a value outside the range is refused with
  \<^verbatim>\<open>numeric_value_out_of_range\<close>, be it an argument, a value assigned to a variable
  of the stored procedure or the result of its arithmetic.
\<close>

definition int4 :: "int \<Rightarrow> bool" where
  "int4 x \<longleftrightarrow> - 2147483648 \<le> x \<and> x \<le> 2147483647"

text \<open>
  Storing a string in a \<^verbatim>\<open>VARCHAR(255)\<close> column: up to 255 characters as they are; a
  longer one is cut to 255 when only spaces are lost and refused with
  \<^verbatim>\<open>string_data_right_truncation\<close> otherwise. An element of a string is a character.
\<close>

definition varchar255 :: "string \<Rightarrow> string option" where
  "varchar255 s =
     (if length s \<le> 255 then Some s
      else if list_all (\<lambda>ch. ch = CHR '' '') (drop 255 s) then Some (take 255 s)
      else None)"

text \<open>
  \<^verbatim>\<open>DEFAULT uuid_generate_v4()\<close> on a primary key: a key that no row of the table
  has. Which key is immaterial; the generator is given the keys in use.
\<close>

definition uuid_generate_v4 :: "uuid list \<Rightarrow> uuid" where
  "uuid_generate_v4 used = Suc (foldr max used 0)"

text \<open>\<^verbatim>\<open>UPDATE ... SET ... WHERE guard\<close> over the reservations table.\<close>

definition update_where ::
  "(Reservation \<Rightarrow> bool) \<Rightarrow> (Reservation \<Rightarrow> Reservation) \<Rightarrow> Reservation list \<Rightarrow> Reservation list" where
  "update_where guard set_cols rows = map (\<lambda>r. if guard r then set_cols r else r) rows"

text \<open>\<^verbatim>\<open>SELECT COALESCE(SUM(quantity), 0) ... WHERE cond\<close>, and the \<^verbatim>\<open>reduce\<close> of the
  repositories over the selected rows.\<close>

definition sum_quantity :: "(Reservation \<Rightarrow> bool) \<Rightarrow> Reservation list \<Rightarrow> int" where
  "sum_quantity cond rows = sum_list (map quantity (filter cond rows))"

section \<open>The stored procedure \<^verbatim>\<open>create_reservation_atomic\<close>\<close>

text \<open>
  \<^verbatim>\<open>INSERT INTO reservations (item_id, customer_id, quantity, status, expires_at)\<close>:
  \<^verbatim>\<open>id\<close> and \<^verbatim>\<open>created_at\<close> take their defaults (\<^verbatim>\<open>NOW()\<close> is \<open>now\<close>), the three
  audit columns are null; \<open>new_reservation\<close> is that row. The row is refused when a
  value does not fit its column, when it breaks \<^verbatim>\<open>CHECK (quantity > 0)\<close> or
  \<^verbatim>\<open>CHECK (expires_at > created_at)\<close>, or when it refers to no row of \<^verbatim>\<open>items\<close>; a
  refused statement leaves the table as it was.
\<close>

definition new_reservation ::
  "database \<Rightarrow> timestamp \<Rightarrow> uuid \<Rightarrow> string \<Rightarrow> int \<Rightarrow> ReservationStatus \<Rightarrow> timestamp \<Rightarrow> Reservation" where
  "new_reservation db now p_item_id p_customer_id p_quantity p_status p_expires_at =
     \<lparr> r_id = uuid_generate_v4 (map r_id (reservations db)),
       item_id = p_item_id, customer_id = p_customer_id,
       quantity = p_quantity, status = p_status,
       expires_at = p_expires_at, created_at = now,
       confirmed_at = None, cancelled_at = None, expired_at = None \<rparr>"

definition insert_reservation ::
  "database \<Rightarrow> timestamp \<Rightarrow> uuid \<Rightarrow> string \<Rightarrow> int \<Rightarrow> ReservationStatus \<Rightarrow> timestamp
    \<Rightarrow> database \<times> (pg_exception + uuid)" where
  "insert_reservation db now p_item_id p_customer_id p_quantity p_status p_expires_at =
     (if \<not> int4 p_quantity then (db, Inl numeric_value_out_of_range)
      else case varchar255 p_customer_id of
        None \<Rightarrow> (db, Inl string_data_right_truncation)
      | Some v_customer_id \<Rightarrow>
         (let row = new_reservation db now p_item_id v_customer_id p_quantity p_status p_expires_at
          in if \<not> (quantity row > 0 \<and> expires_at row > created_at row)
               then (db, Inl check_violation)
             else if item_id row \<notin> set (map i_id (items db))
               then (db, Inl foreign_key_violation)
             else (db\<lparr> reservations := reservations db @ [row] \<rparr>, Inr (r_id row))))"

text \<open>
  The call and the body of the function, statement by statement. \<^verbatim>\<open>p_quantity\<close> is an
  \<^verbatim>\<open>INTEGER\<close>: the call is refused before the body runs when the argument does not
  fit. \<open>now\<close> is \<^verbatim>\<open>NOW()\<close>, one value for the whole transaction.
  \<^verbatim>\<open>SELECT ... INTO\<close> takes the first row and sets \<^verbatim>\<open>FOUND\<close>; the two sums are
  assigned to \<^verbatim>\<open>INTEGER\<close> variables and the subtractions are \<^verbatim>\<open>INTEGER\<close>
  arithmetic; \<^verbatim>\<open>RETURN NULL\<close> is \<open>Inr None\<close>; a raised exception aborts the
  transaction, so the database it returns is the one it was given.
\<close>

definition create_reservation_atomic ::
  "database \<Rightarrow> timestamp \<Rightarrow> uuid \<Rightarrow> string \<Rightarrow> int \<Rightarrow> timestamp
    \<Rightarrow> database \<times> (pg_exception + uuid option)" where
  "create_reservation_atomic db now p_item_id p_customer_id p_quantity p_expires_at =
     (if \<not> int4 p_quantity then (db, Inl numeric_value_out_of_range)
      else case filter (\<lambda>i. i_id i = p_item_id) (items db) of
        [] \<Rightarrow> (db, Inl item_not_found)
      | i # _ \<Rightarrow>
         (let v_total_quantity = total_quantity i;
              v_reserved_quantity =
                sum_quantity (\<lambda>r. item_id r = p_item_id \<and> status r = PENDING \<and> expires_at r > now)
                  (reservations db);
              v_confirmed_quantity =
                sum_quantity (\<lambda>r. item_id r = p_item_id \<and> status r = CONFIRMED) (reservations db);
              v_available_quantity = v_total_quantity - v_reserved_quantity - v_confirmed_quantity
          in if \<not> int4 v_reserved_quantity then (db, Inl numeric_value_out_of_range)
             else if \<not> int4 v_confirmed_quantity then (db, Inl numeric_value_out_of_range)
             else if \<not> int4 (v_total_quantity - v_reserved_quantity) \<or> \<not> int4 v_available_quantity
               then (db, Inl numeric_value_out_of_range)
             else if v_available_quantity < p_quantity then (db, Inr None)
             else (case insert_reservation db now p_item_id p_customer_id p_quantity PENDING p_expires_at of
                     (db', Inl e) \<Rightarrow> (db, Inl e)
                   | (db', Inr v_reservation_id) \<Rightarrow> (db', Inr (Some v_reservation_id)))))"

section \<open>Repositories\<close>

text \<open>
  \<^verbatim>\<open>ItemRepository.create\<close>: the insert into \<^verbatim>\<open>items\<close>, with the width of
  \<^verbatim>\<open>total_quantity\<close>, the length of \<^verbatim>\<open>name\<close> and \<^verbatim>\<open>CHECK (total_quantity > 0)\<close>.
\<close>

definition item_create :: "database \<Rightarrow> timestamp \<Rightarrow> string \<Rightarrow> int \<Rightarrow> database \<times> (AppError + Item)" where
  "item_create db now p_name totalQuantity =
     (if \<not> int4 totalQuantity then (db, Inl (Error ''Failed to create item''))
      else case varchar255 p_name of
        None \<Rightarrow> (db, Inl (Error ''Failed to create item''))
      | Some v_name \<Rightarrow>
         (let row = \<lparr> i_id = uuid_generate_v4 (map i_id (items db)), name = v_name,
                      total_quantity = totalQuantity, i_created_at = now, updated_at = now \<rparr>
          in if \<not> total_quantity row > 0 then (db, Inl (Error ''Failed to create item''))
             else (db\<lparr> items := items db @ [row] \<rparr>, Inr row)))"

definition item_findById :: "database \<Rightarrow> uuid \<Rightarrow> Item option" where
  "item_findById db iid = single (filter (\<lambda>i. i_id i = iid) (items db))"

definition findById :: "database \<Rightarrow> uuid \<Rightarrow> Reservation option" where
  "findById db rid = single (filter (\<lambda>r. r_id r = rid) (reservations db))"

text \<open>
  \<^verbatim>\<open>ReservationRepository.createAtomic\<close>: the remote call, then the read of the row
  it created.
\<close>

definition createAtomic ::
  "database \<Rightarrow> timestamp \<Rightarrow> uuid \<Rightarrow> string \<Rightarrow> int \<Rightarrow> timestamp
    \<Rightarrow> database \<times> (AppError + Reservation option)" where
  "createAtomic db now itemId customerId qty expiresAt =
     (case create_reservation_atomic db now itemId customerId qty expiresAt of
        (db', Inl item_not_found) \<Rightarrow> (db', Inl (Error ''Item not found''))
      | (db', Inl _) \<Rightarrow> (db', Inl (Error ''Failed to create reservation''))
      | (db', Inr None) \<Rightarrow> (db', Inr None)
      | (db', Inr (Some reservationId)) \<Rightarrow>
          (case findById db' reservationId of
             None \<Rightarrow> (db', Inl (Error ''Reservation created but not found''))
           | Some reservation \<Rightarrow> (db', Inr (Some reservation))))"

text \<open>
  The guarded updates. Each reads the clock where the source calls \<^verbatim>\<open>new Date()\<close>:
  \<open>t_set\<close> for the audit column, \<open>t_guard\<close> for the comparison with
  \<^verbatim>\<open>expires_at\<close>. \<^verbatim>\<open>.select().single()\<close> answers with the updated row when exactly
  one row was updated. More than one cannot happen, \<^verbatim>\<open>id\<close> being the primary key; the
  request is then refused as a whole. Both timestamps are taken on the application server
  when the request is built, before the database runs the update.
\<close>

definition repo_confirmReservation ::
  "database \<Rightarrow> timestamp \<Rightarrow> timestamp \<Rightarrow> uuid \<Rightarrow> database \<times> Reservation option" where
  "repo_confirmReservation db t_set t_guard rid =
     (let guard = (\<lambda>r. r_id r = rid \<and> status r = PENDING \<and> expires_at r > t_guard);
          set_cols = (\<lambda>r. r\<lparr> status := CONFIRMED, confirmed_at := Some t_set \<rparr>)
      in case single (filter guard (reservations db)) of
           None \<Rightarrow> (db, None)
         | Some r \<Rightarrow>
             (db\<lparr> reservations := update_where guard set_cols (reservations db) \<rparr>, Some (set_cols r)))"

definition repo_cancelReservation ::
  "database \<Rightarrow> timestamp \<Rightarrow> uuid \<Rightarrow> database \<times> Reservation option" where
  "repo_cancelReservation db t_set rid =
     (let guard = (\<lambda>r. r_id r = rid \<and> status r = PENDING);
          set_cols = (\<lambda>r. r\<lparr> status := CANCELLED, cancelled_at := Some t_set \<rparr>)
      in case single (filter guard (reservations db)) of
           None \<Rightarrow> (db, None)
         | Some r \<Rightarrow>
             (db\<lparr> reservations := update_where guard set_cols (reservations db) \<rparr>, Some (set_cols r)))"

text \<open>
  The sweep answers with the rows it updated (\<^verbatim>\<open>.select('id')\<close>, that is
  \<^verbatim>\<open>RETURNING id\<close>). The statement has no \<^verbatim>\<open>ORDER BY\<close>: the database returns the
  rows in an order of its choosing, here the order of their ranks under \<open>order\<close>, which
  may be any ranking.
\<close>

definition repo_expireReservations ::
  "database \<Rightarrow> timestamp \<Rightarrow> timestamp \<Rightarrow> (Reservation \<Rightarrow> nat)
    \<Rightarrow> database \<times> ExpireReservationsResult" where
  "repo_expireReservations db t_set t_guard order =
     (let guard = (\<lambda>r. status r = PENDING \<and> expires_at r \<le> t_guard);
          set_cols = (\<lambda>r. r\<lparr> status := EXPIRED, expired_at := Some t_set \<rparr>);
          returned = sort_key order (map set_cols (filter guard (reservations db)));
          expiredIds = map r_id returned
      in (db\<lparr> reservations := update_where guard set_cols (reservations db) \<rparr>,
          \<lparr> expiredCount = length expiredIds, expiredReservationIds = expiredIds \<rparr>))"

definition getActiveReservedQuantity :: "database \<Rightarrow> timestamp \<Rightarrow> uuid \<Rightarrow> int" where
  "getActiveReservedQuantity db now itemId =
     sum_quantity (\<lambda>r. item_id r = itemId \<and> status r = PENDING \<and> expires_at r > now) (reservations db)"

definition getConfirmedQuantity :: "database \<Rightarrow> uuid \<Rightarrow> int" where
  "getConfirmedQuantity db itemId =
     sum_quantity (\<lambda>r. item_id r = itemId \<and> status r = CONFIRMED) (reservations db)"

section \<open>Services\<close>

text \<open>
  A service function takes the database and returns the database it leaves and either an
  error (\<open>Inl\<close>) or its result (\<open>Inr\<close>). Every reading of the clock is a parameter,
  named after the place where the source reads it; the application servers and the
  database read one clock. Failures of the transport (a lost connection, a lock timeout)
  are outside the model: every round trip is answered.
\<close>

text \<open>
  \<^verbatim>\<open>ReservationService.createReservation\<close>. \<open>expiry_ms\<close> is the configured
  \<^verbatim>\<open>RESERVATION_EXPIRY_MS\<close>. The three clock readings are \<^verbatim>\<open>Date.now()\<close> of step 2
  (\<open>t_exp\<close>), \<^verbatim>\<open>NOW()\<close> of the stored procedure (\<open>t_sql\<close>) and the
  \<^verbatim>\<open>new Date()\<close> of \<^verbatim>\<open>getActiveReservedQuantity\<close> (\<open>t_read\<close>).
\<close>

definition createReservation ::
  "int \<Rightarrow> timestamp \<Rightarrow> timestamp \<Rightarrow> timestamp \<Rightarrow> database \<Rightarrow> uuid \<Rightarrow> string \<Rightarrow> int
    \<Rightarrow> database \<times> (AppError + Reservation)" where
  "createReservation expiry_ms t_exp t_sql t_read db itemId customerId qty =
     (case item_findById db itemId of
        None \<Rightarrow> (db, Inl ITEM_NOT_FOUND)
      | Some item \<Rightarrow>
         (let expiresAt = t_exp + expiry_ms
          in case createAtomic db t_sql itemId customerId qty expiresAt of
               (db', Inl e) \<Rightarrow> (db', Inl e)
             | (db', Inr None) \<Rightarrow>
                 (let reservedQuantity = getActiveReservedQuantity db' t_read itemId;
                      confirmedQuantity = getConfirmedQuantity db' itemId;
                      availableQuantity = total_quantity item - reservedQuantity - confirmedQuantity
                  in (db', Inl (INSUFFICIENT_QUANTITY qty availableQuantity)))
             | (db', Inr (Some reservation)) \<Rightarrow> (db', Inr reservation)))"

text \<open>
  \<^verbatim>\<open>ReservationService.confirmReservation\<close> and \<^verbatim>\<open>cancelReservation\<close>. Each
  \<^verbatim>\<open>await\<close> is a round trip to the database, and transactions of other requests may
  commit between two round trips of this one: \<open>others1\<close> is what they did to the
  database between the first read and the guarded update, \<open>others2\<close> between the
  guarded update and the second read. The timestamps of the guarded update are read when
  the request is built, so what \<open>others1\<close> commits may carry later readings of the clock
  than \<open>t_guard\<close>. A request that runs alone has the identity for both.
\<close>

definition confirmReservation_among ::
  "(database \<Rightarrow> database) \<Rightarrow> (database \<Rightarrow> database) \<Rightarrow> timestamp \<Rightarrow> timestamp \<Rightarrow> timestamp
    \<Rightarrow> database \<Rightarrow> uuid \<Rightarrow> database \<times> (AppError + Reservation)" where
  "confirmReservation_among others1 others2 t_check t_set t_guard db rid =
     (case findById db rid of
        None \<Rightarrow> (db, Inl RESERVATION_NOT_FOUND)
      | Some existing \<Rightarrow>
          if status existing = CONFIRMED then (db, Inr existing)
          else if status existing \<noteq> PENDING
            then (db, Inl (INVALID_STATUS_TRANSITION (status existing)))
          else if expires_at existing < t_check
            then (db, Inl (RESERVATION_EXPIRED (expires_at existing)))
          else (case repo_confirmReservation (others1 db) t_set t_guard rid of
                  (db', Some confirmed) \<Rightarrow> (db', Inr confirmed)
                | (db', None) \<Rightarrow>
                    (let db'' = others2 db'
                     in case findById db'' rid of
                          None \<Rightarrow> (db'', Inl CONFIRMATION_FAILED)
                        | Some current \<Rightarrow>
                            if status current = CONFIRMED then (db'', Inr current)
                            else (db'', Inl CONFIRMATION_FAILED))))"

definition cancelReservation_among ::
  "(database \<Rightarrow> database) \<Rightarrow> (database \<Rightarrow> database) \<Rightarrow> timestamp
    \<Rightarrow> database \<Rightarrow> uuid \<Rightarrow> database \<times> (AppError + Reservation)" where
  "cancelReservation_among others1 others2 t_set db rid =
     (case findById db rid of
        None \<Rightarrow> (db, Inl RESERVATION_NOT_FOUND)
      | Some existing \<Rightarrow>
          if status existing = CANCELLED then (db, Inr existing)
          else if status existing = EXPIRED then (db, Inr existing)
          else if status existing = CONFIRMED
            then (db, Inl (INVALID_STATUS_TRANSITION (status existing)))
          else (case repo_cancelReservation (others1 db) t_set rid of
                  (db', Some cancelled) \<Rightarrow> (db', Inr cancelled)
                | (db', None) \<Rightarrow>
                    (let db'' = others2 db'
                     in case findById db'' rid of
                          None \<Rightarrow> (db'', Inl CANCELLATION_FAILED)
                        | Some current \<Rightarrow>
                            if status current = CANCELLED \<or> status current = EXPIRED
                              then (db'', Inr current)
                            else (db'', Inl CANCELLATION_FAILED))))"

definition confirmReservation ::
  "timestamp \<Rightarrow> timestamp \<Rightarrow> timestamp \<Rightarrow> database \<Rightarrow> uuid \<Rightarrow> database \<times> (AppError + Reservation)" where
  "confirmReservation = confirmReservation_among id id"

definition cancelReservation ::
  "timestamp \<Rightarrow> database \<Rightarrow> uuid \<Rightarrow> database \<times> (AppError + Reservation)" where
  "cancelReservation = cancelReservation_among id id"

text \<open>\<^verbatim>\<open>MaintenanceService.expireReservations\<close> and \<^verbatim>\<open>ItemService.createItem\<close>.\<close>

definition expireReservations ::
  "(Reservation \<Rightarrow> nat) \<Rightarrow> timestamp \<Rightarrow> timestamp \<Rightarrow> database
    \<Rightarrow> database \<times> ExpireReservationsResult" where
  "expireReservations order t_set t_guard db = repo_expireReservations db t_set t_guard order"

definition createItem :: "timestamp \<Rightarrow> database \<Rightarrow> string \<Rightarrow> int \<Rightarrow> database \<times> (AppError + Item)" where
  "createItem now db p_name initialQuantity = item_create db now p_name initialQuantity"


section \<open>What the claims speak of\<close>

text \<open>
  The quantity an item has committed at an instant, row by row: a \<^verbatim>\<open>CONFIRMED\<close> row
  counts, a \<^verbatim>\<open>PENDING\<close> row counts while \<^verbatim>\<open>expires_at\<close> is still ahead. Summed over
  the table it is \<open>getConfirmedQuantity + getActiveReservedQuantity\<close>.
\<close>

definition held :: "timestamp \<Rightarrow> uuid \<Rightarrow> Reservation \<Rightarrow> int" where
  "held t i r =
     (if item_id r = i \<and> (status r = CONFIRMED \<or> (status r = PENDING \<and> expires_at r > t))
      then quantity r else 0)"

text \<open>
  What the schema and the operations keep true of a database at the instant \<open>now\<close>:
  the primary key of \<^verbatim>\<open>items\<close>, the two constraints on a reservation row, and the
  bound on what each item has committed.
\<close>

definition consistent :: "timestamp \<Rightarrow> database \<Rightarrow> bool" where
  "consistent now db \<longleftrightarrow>
     distinct (map i_id (items db)) \<and>
     (\<forall>r \<in> set (reservations db). 0 < quantity r \<and> item_id r \<in> set (map i_id (items db))) \<and>
     (\<forall>i \<in> set (items db). sum_list (map (held now (i_id i)) (reservations db)) \<le> total_quantity i)"

text \<open>
  The states reached when the operations run one at a time: the deployment starts empty,
  the clock never goes back, each operation has returned before the next begins and reads
  the clock in the order the source does. The instant of the state after an operation is
  the last reading of that operation. Requests that overlap are not runs of this kind.
\<close>

inductive serial :: "timestamp \<Rightarrow> database \<Rightarrow> bool" where
  start: "serial now \<lparr> items = [], reservations = [] \<rparr>"
| wait: "serial now db \<Longrightarrow> now \<le> now' \<Longrightarrow> serial now' db"
| CreateItem:
    "serial now db \<Longrightarrow> createItem now db n q = (db', res) \<Longrightarrow> serial now db'"
| CreateReservation:
    "serial now db \<Longrightarrow> now \<le> t_exp \<Longrightarrow> t_exp \<le> t_sql \<Longrightarrow> t_sql \<le> t_read \<Longrightarrow>
     createReservation expiry_ms t_exp t_sql t_read db i c q = (db', res) \<Longrightarrow> serial t_read db'"
| Confirm:
    "serial now db \<Longrightarrow> now \<le> t_check \<Longrightarrow> t_check \<le> t_set \<Longrightarrow> t_set \<le> t_guard \<Longrightarrow>
     confirmReservation t_check t_set t_guard db rid = (db', res) \<Longrightarrow> serial t_guard db'"
| Cancel:
    "serial now db \<Longrightarrow> now \<le> t_set \<Longrightarrow>
     cancelReservation t_set db rid = (db', res) \<Longrightarrow> serial t_set db'"
| ExpireDue:
    "serial now db \<Longrightarrow> now \<le> t_set \<Longrightarrow> t_set \<le> t_guard \<Longrightarrow>
     expireReservations order t_set t_guard db = (db', res) \<Longrightarrow> serial t_guard db'"

text \<open>
  Contending calls. A call of \<^verbatim>\<open>createReservation\<close> is a sequence of round trips to
  the database, one for each \<^verbatim>\<open>await\<close>, and the round trips of concurrent calls
  interleave. A round trip is one transaction; the stored procedure holds the lock on the
  item row (\<^verbatim>\<open>SELECT ... FOR UPDATE\<close>) from its first statement to its commit, so it is
  one step here. \<open>create_task\<close> is where a call stands between two round trips, with the
  local variables it carries; \<open>create_step\<close> is its next round trip, run at the clock
  reading \<open>now\<close>, and what the call does with the answer.
\<close>

type_synonym request = "uuid \<times> string \<times> int"

datatype create_task =
    Lookup
  | Admit Item timestamp
  | Fetch uuid
  | ReadReserved Item
  | ReadConfirmed Item int
  | Finished "AppError + Reservation"

fun create_step ::
  "int \<Rightarrow> timestamp \<Rightarrow> request \<Rightarrow> database \<Rightarrow> create_task \<Rightarrow> database \<times> create_task" where
  "create_step expiry_ms now (itemId, customerId, qty) db Lookup =
     (case item_findById db itemId of
        None \<Rightarrow> (db, Finished (Inl ITEM_NOT_FOUND))
      | Some item \<Rightarrow> (db, Admit item (now + expiry_ms)))"
| "create_step expiry_ms now (itemId, customerId, qty) db (Admit item expiresAt) =
     (case create_reservation_atomic db now itemId customerId qty expiresAt of
        (db', Inl item_not_found) \<Rightarrow> (db', Finished (Inl (Error ''Item not found'')))
      | (db', Inl _) \<Rightarrow> (db', Finished (Inl (Error ''Failed to create reservation'')))
      | (db', Inr None) \<Rightarrow> (db', ReadReserved item)
      | (db', Inr (Some reservationId)) \<Rightarrow> (db', Fetch reservationId))"
| "create_step expiry_ms now (itemId, customerId, qty) db (Fetch reservationId) =
     (case findById db reservationId of
        None \<Rightarrow> (db, Finished (Inl (Error ''Reservation created but not found'')))
      | Some reservation \<Rightarrow> (db, Finished (Inr reservation)))"
| "create_step expiry_ms now (itemId, customerId, qty) db (ReadReserved item) =
     (db, ReadConfirmed item (getActiveReservedQuantity db now itemId))"
| "create_step expiry_ms now (itemId, customerId, qty) db (ReadConfirmed item reservedQuantity) =
     (let confirmedQuantity = getConfirmedQuantity db itemId;
          availableQuantity = total_quantity item - reservedQuantity - confirmedQuantity
      in (db, Finished (Inl (INSUFFICIENT_QUANTITY qty availableQuantity))))"
| "create_step expiry_ms now (itemId, customerId, qty) db (Finished res) = (db, Finished res)"

text \<open>
  A schedule says which call takes its next round trip, and at which reading of the clock.
  \<open>interleave\<close> runs a schedule on the database and the calls under way; \<open>outcomes\<close>
  collects what the calls that have returned have returned.
\<close>

type_synonym schedule = "(nat \<times> timestamp) list"

fun interleave ::
  "int \<Rightarrow> schedule \<Rightarrow> database \<times> (request \<times> create_task) list
    \<Rightarrow> database \<times> (request \<times> create_task) list" where
  "interleave expiry_ms [] cfg = cfg"
| "interleave expiry_ms ((k, now) # sched) (db, tasks) =
     (if k < length tasks then
        (case tasks ! k of (req, s) \<Rightarrow>
           (case create_step expiry_ms now req db s of
              (db', s') \<Rightarrow> interleave expiry_ms sched (db', tasks[k := (req, s')])))
      else interleave expiry_ms sched (db, tasks))"

fun outcomes :: "(request \<times> create_task) list \<Rightarrow> (AppError + Reservation) list" where
  "outcomes [] = []"
| "outcomes ((req, Finished res) # tasks) = res # outcomes tasks"
| "outcomes (_ # tasks) = outcomes tasks"

definition succeeded :: "AppError + Reservation \<Rightarrow> bool" where
  "succeeded res = (case res of Inr r \<Rightarrow> status r = PENDING | Inl _ \<Rightarrow> False)"

definition insufficient :: "AppError + Reservation \<Rightarrow> bool" where
  "insufficient res = (case res of Inl (INSUFFICIENT_QUANTITY _ _) \<Rightarrow> True | _ \<Rightarrow> False)"

text \<open>No hold on item \<open>i\<close> lapses between \<open>t0\<close> and \<open>t1\<close>.\<close>

definition quiet :: "database \<Rightarrow> uuid \<Rightarrow> timestamp \<Rightarrow> timestamp \<Rightarrow> bool" where
  "quiet db i t0 t1 \<longleftrightarrow>
     (\<forall>r \<in> set (reservations db).
        item_id r = i \<and> status r = PENDING \<longrightarrow> expires_at r \<le> t0 \<or> t1 < expires_at r)"

text \<open>
  The \<^verbatim>\<open>INTEGER\<close> columns of a database hold what the schema lets them hold: 32-bit
  values that satisfy \<^verbatim>\<open>CHECK (total_quantity > 0)\<close> and \<^verbatim>\<open>CHECK (quantity > 0)\<close>.
\<close>

definition columns_ok :: "database \<Rightarrow> bool" where
  "columns_ok db \<longleftrightarrow>
     list_all (\<lambda>i. 0 < total_quantity i \<and> int4 (total_quantity i)) (items db) \<and>
     list_all (\<lambda>r. 0 < quantity r \<and> int4 (quantity r)) (reservations db)"

text \<open>
  The sums the stored procedure computes for item \<open>i\<close> at \<open>now\<close>, and their differences
  with the item's total, fit its \<^verbatim>\<open>INTEGER\<close> variables.
\<close>

definition sums_fit :: "database \<Rightarrow> timestamp \<Rightarrow> uuid \<Rightarrow> bool" where
  "sums_fit db now i =
     (case item_findById db i of
        None \<Rightarrow> True
      | Some it \<Rightarrow>
          int4 (getActiveReservedQuantity db now i) \<and> int4 (getConfirmedQuantity db i) \<and>
          int4 (total_quantity it - getActiveReservedQuantity db now i) \<and>
          int4 (total_quantity it - getActiveReservedQuantity db now i - getConfirmedQuantity db i))"

text \<open>
  For the proof: the calls the stored procedure has admitted and those it has turned away,
  what a call under way may rely on, the round trips a call has left at most, and what
  holds of the database and the calls at every point of a schedule.
\<close>

fun admitted :: "create_task \<Rightarrow> bool" where
  "admitted (Fetch _) = True"
| "admitted (Finished (Inr _)) = True"
| "admitted _ = False"

fun rejected :: "create_task \<Rightarrow> bool" where
  "rejected (ReadReserved _) = True"
| "rejected (ReadConfirmed _ _) = True"
| "rejected (Finished (Inl (INSUFFICIENT_QUANTITY _ _))) = True"
| "rejected _ = False"

fun task_ok :: "Item \<Rightarrow> timestamp \<Rightarrow> database \<Rightarrow> create_task \<Rightarrow> bool" where
  "task_ok it t1 db Lookup = True"
| "task_ok it t1 db (Admit item e) = (item = it \<and> t1 < e)"
| "task_ok it t1 db (Fetch k) =
     (case findById db k of Some r \<Rightarrow> status r = PENDING | None \<Rightarrow> False)"
| "task_ok it t1 db (ReadReserved item) = True"
| "task_ok it t1 db (ReadConfirmed item x) = True"
| "task_ok it t1 db (Finished res) = (succeeded res \<or> insufficient res)"

fun steps_left :: "create_task \<Rightarrow> nat" where
  "steps_left Lookup = 4"
| "steps_left (Admit _ _) = 3"
| "steps_left (ReadReserved _) = 2"
| "steps_left (ReadConfirmed _ _) = 1"
| "steps_left (Fetch _) = 1"
| "steps_left (Finished _) = 0"

definition contention_inv ::
  "uuid \<Rightarrow> Item \<Rightarrow> timestamp \<Rightarrow> timestamp \<Rightarrow> nat \<Rightarrow> database
    \<Rightarrow> (request \<times> create_task) list \<Rightarrow> bool" where
  "contention_inv i it t0 t1 N db tasks \<longleftrightarrow>
     item_findById db i = Some it \<and> quiet db i t0 t1 \<and> int4 (total_quantity it) \<and>
     0 \<le> getActiveReservedQuantity db t0 i \<and> 0 \<le> getConfirmedQuantity db i \<and>
     0 \<le> total_quantity it - getActiveReservedQuantity db t0 i - getConfirmedQuantity db i \<and>
     total_quantity it - getActiveReservedQuantity db t0 i - getConfirmedQuantity db i
       + int (length (filter (\<lambda>p. admitted (snd p)) tasks)) = int N \<and>
     ((\<exists>p \<in> set tasks. rejected (snd p)) \<longrightarrow>
        total_quantity it - getActiveReservedQuantity db t0 i - getConfirmedQuantity db i = 0) \<and>
     (\<forall>p \<in> set tasks. fst (fst p) = i \<and> length (fst (snd (fst p))) \<le> 255 \<and>
        snd (snd (fst p)) = 1 \<and> task_ok it t1 db (snd p))"

text \<open>
  The race-resolution policy in the words of the specification: the caller that lost the
  race answers with the state it observed, as an idempotent success or as a conflict that
  names that state (\<^verbatim>\<open>Expired\<close> or \<^verbatim>\<open>InvalidTransition{current_status}\<close>).
\<close>

definition spec_race_resolution :: "Reservation \<Rightarrow> AppError + Reservation \<Rightarrow> bool" where
  "spec_race_resolution observed result \<longleftrightarrow>
     result = Inr observed \<or>
     result = Inl (RESERVATION_EXPIRED (expires_at observed)) \<or>
     result = Inl (INVALID_STATUS_TRANSITION (status observed))"

subsection \<open>A shop to run the operations on\<close>

text \<open>
  One item (id 7) of ten units and five holds of three units each: hold 11 is pending until 600,
  hold 12 confirmed, hold 13 cancelled, hold 14 expired, and hold 15 is pending with its
  expiry at 100 and not swept yet.
\<close>

definition tshirt :: Item where
  "tshirt = \<lparr> i_id = 7, name = ''White T-Shirt'', total_quantity = 10,
              i_created_at = 0, updated_at = 0 \<rparr>"

definition hold :: "uuid \<Rightarrow> ReservationStatus \<Rightarrow> timestamp \<Rightarrow> Reservation" where
  "hold k s e = \<lparr> r_id = k, item_id = 7, customer_id = ''customer_001'', quantity = 3,
                  status = s, expires_at = e, created_at = 0,
                  confirmed_at = None, cancelled_at = None, expired_at = None \<rparr>"

definition shop :: database where
  "shop = \<lparr> items = [tshirt],
            reservations =
              [hold 11 PENDING 600,
               (hold 12 CONFIRMED 600)\<lparr> confirmed_at := Some 50 \<rparr>,
               (hold 13 CANCELLED 600)\<lparr> cancelled_at := Some 60 \<rparr>,
               (hold 14 EXPIRED 70)\<lparr> expired_at := Some 80 \<rparr>,
               hold 15 PENDING 100] \<rparr>"

text \<open>
  Six calls for one unit of the item, and a schedule for them: all look the item up, then
  the stored procedure runs for call 5 first and call 0 last, then each call takes its
  remaining round trips.
\<close>

definition rush :: "request list" where
  "rush = [(7, ''a'', 1), (7, ''b'', 1), (7, ''c'', 1), (7, ''d'', 1), (7, ''e'', 1), (7, ''f'', 1)]"

definition rush_schedule :: schedule where
  "rush_schedule =
     [(0, 200), (1, 200), (2, 200), (3, 200), (4, 200), (5, 200),
      (5, 201), (4, 201), (3, 202), (2, 202), (1, 203), (0, 203),
      (0, 204), (1, 204), (2, 204), (3, 204), (4, 204), (5, 204),
      (0, 205), (1, 205), (2, 205), (3, 205), (4, 205), (5, 205)]"

text \<open>
  Three calls for one unit of the item, one after the other at 99, 100 and 101: hold 15
  lapses at 100, in the middle of them.
\<close>

definition trio :: "request list" where
  "trio = [(7, ''a'', 1), (7, ''b'', 1), (7, ''c'', 1)]"

definition trio_schedule :: schedule where
  "trio_schedule =
     [(0, 99), (0, 99), (0, 99), (0, 99),
      (1, 100), (1, 100), (1, 100), (1, 100),
      (2, 101), (2, 101), (2, 101), (2, 101)]"

text \<open>
  A boutique: one item (id 8) of a single unit, and hold 21 on it, pending until 100.
  Two calls for the unit, one after the other; in \<open>pair_long\<close> the first caller's id has
  256 characters.
\<close>

definition hoodie :: Item where
  "hoodie = \<lparr> i_id = 8, name = ''Red Hoodie'', total_quantity = 1,
              i_created_at = 0, updated_at = 0 \<rparr>"

definition hold21 :: Reservation where
  "hold21 = \<lparr> r_id = 21, item_id = 8, customer_id = ''customer_003'', quantity = 1,
              status = PENDING, expires_at = 100, created_at = 0,
              confirmed_at = None, cancelled_at = None, expired_at = None \<rparr>"

definition boutique :: database where
  "boutique = \<lparr> items = [hoodie], reservations = [hold21] \<rparr>"

definition pair :: "request list" where
  "pair = [(8, ''a'', 1), (8, ''b'', 1)]"

definition pair_long :: "request list" where
  "pair_long = [(8, replicate 256 (CHR ''a''), 1), (8, ''b'', 1)]"

definition pair_schedule :: schedule where
  "pair_schedule =
     [(0, 200), (0, 200), (0, 200), (0, 200),
      (1, 201), (1, 201), (1, 201), (1, 201)]"

text \<open>
  A database whose rows each satisfy the schema, with more confirmed on the item than an
  \<^verbatim>\<open>INTEGER\<close> holds.
\<close>

definition glut :: database where
  "glut = \<lparr> items = [tshirt],
            reservations =
              [(hold 31 CONFIRMED 600)\<lparr> quantity := 2147483647, confirmed_at := Some 50 \<rparr>,
               (hold 32 CONFIRMED 600)\<lparr> quantity := 2147483647, confirmed_at := Some 50 \<rparr>] \<rparr>"

text \<open>
  Requests of other callers, each committed while a request is under way: a Cancel and a
  Confirm of hold 11 in the shop, and in the boutique a CreateReservation for the unit
  that runs in the database at 101, after hold 21 has lapsed.
\<close>

definition rival_admission :: "database \<Rightarrow> database" where
  "rival_admission db = fst (createReservation 600 101 101 101 db 8 ''customer_004'' 1)"

definition rival_cancel :: "database \<Rightarrow> database" where
  "rival_cancel db = fst (cancelReservation 200 db 11)"

definition rival_confirm :: "database \<Rightarrow> database" where
  "rival_confirm db = fst (confirmReservation 200 200 200 db 11)"

section \<open>Rows, keys and guarded updates\<close>

lemma single_Some_iff: "single xs = Some r \<longleftrightarrow> xs = [r]"
  by (auto simp: single_def split: list.splits)

lemma findById_SomeD:
  "findById db rid = Some r \<Longrightarrow> filter (\<lambda>x. r_id x = rid) (reservations db) = [r]"
  by (simp add: findById_def single_Some_iff)

lemma findById_key: "findById db rid = Some r \<Longrightarrow> r_id r = rid"
proof -
  assume "findById db rid = Some r"
  then have "r \<in> set (filter (\<lambda>x. r_id x = rid) (reservations db))"
    by (simp add: findById_SomeD)
  then show ?thesis by simp
qed

lemma findById_only:
  assumes "findById db rid = Some r" and "x \<in> set (reservations db)" and "r_id x = rid"
  shows "x = r"
proof -
  from assms(2,3) have "x \<in> set (filter (\<lambda>x. r_id x = rid) (reservations db))" by simp
  with findById_SomeD[OF assms(1)] show ?thesis by simp
qed

lemma filter_conj_key:
  "filter (\<lambda>x. r_id x = rid \<and> P x) rows = filter P (filter (\<lambda>x. r_id x = rid) rows)"
  by (induction rows) auto

lemma filter_key_update_where:
  "(\<And>r. r_id (f r) = r_id r) \<Longrightarrow>
   filter (\<lambda>x. r_id x = rid) (update_where g f rows) =
   map (\<lambda>r. if g r then f r else r) (filter (\<lambda>x. r_id x = rid) rows)"
  by (induction rows) (auto simp: update_where_def)

lemma findById_update_where:
  assumes "\<And>r. r_id (f r) = r_id r"
  shows "findById (db\<lparr>reservations := update_where g f (reservations db)\<rparr>) rid =
         map_option (\<lambda>r. if g r then f r else r) (findById db rid)"
  using assms
  apply (simp add: findById_def filter_key_update_where)
  apply (auto simp: single_def split: list.splits)
  done

lemma update_where_key_only:
  assumes "findById db rid = Some r" and "g r"
  shows "update_where (\<lambda>x. r_id x = rid \<and> g x) f (reservations db) =
         map (\<lambda>x. if r_id x = rid then f x else x) (reservations db)"
  using findById_only[OF assms(1)] assms(2) by (auto simp: update_where_def)

lemma repo_confirm_found:
  assumes "findById db rid = Some r"
  shows "repo_confirmReservation db ts tg rid =
     (if status r = PENDING \<and> expires_at r > tg
      then (db\<lparr>reservations :=
                 update_where (\<lambda>r. r_id r = rid \<and> status r = PENDING \<and> expires_at r > tg)
                   (\<lambda>r. r\<lparr> status := CONFIRMED, confirmed_at := Some ts \<rparr>) (reservations db)\<rparr>,
            Some (r\<lparr> status := CONFIRMED, confirmed_at := Some ts \<rparr>))
      else (db, None))"
  using findById_SomeD[OF assms]
  by (simp add: repo_confirmReservation_def single_def Let_def
      filter_conj_key[of rid "\<lambda>r. status r = PENDING \<and> expires_at r > tg"])

lemma repo_cancel_found:
  assumes "findById db rid = Some r"
  shows "repo_cancelReservation db ts rid =
     (if status r = PENDING
      then (db\<lparr>reservations :=
                 update_where (\<lambda>r. r_id r = rid \<and> status r = PENDING)
                   (\<lambda>r. r\<lparr> status := CANCELLED, cancelled_at := Some ts \<rparr>) (reservations db)\<rparr>,
            Some (r\<lparr> status := CANCELLED, cancelled_at := Some ts \<rparr>))
      else (db, None))"
  using findById_SomeD[OF assms]
  by (simp add: repo_cancelReservation_def single_def Let_def
      filter_conj_key[of rid "\<lambda>r. status r = PENDING"])

lemma repo_confirm_zero_rows:
  "snd (repo_confirmReservation db ts tg rid) = None \<Longrightarrow> repo_confirmReservation db ts tg rid = (db, None)"
  by (simp add: repo_confirmReservation_def Let_def split: option.splits)

lemma repo_cancel_zero_rows:
  "snd (repo_cancelReservation db ts rid) = None \<Longrightarrow> repo_cancelReservation db ts rid = (db, None)"
  by (simp add: repo_cancelReservation_def Let_def split: option.splits)

section \<open>A request that runs alone\<close>

lemma confirm_alone_found:
  assumes "findById db rid = Some r"
  shows "confirmReservation tc ts tg db rid =
    (if status r = CONFIRMED then (db, Inr r)
     else if status r \<noteq> PENDING then (db, Inl (INVALID_STATUS_TRANSITION (status r)))
     else if expires_at r < tc then (db, Inl (RESERVATION_EXPIRED (expires_at r)))
     else if expires_at r > tg
       then (db\<lparr>reservations :=
                  update_where (\<lambda>r. r_id r = rid \<and> status r = PENDING \<and> expires_at r > tg)
                    (\<lambda>r. r\<lparr> status := CONFIRMED, confirmed_at := Some ts \<rparr>) (reservations db)\<rparr>,
             Inr (r\<lparr> status := CONFIRMED, confirmed_at := Some ts \<rparr>))
     else (db, Inl CONFIRMATION_FAILED))"
  using assms
  by (simp add: confirmReservation_def confirmReservation_among_def repo_confirm_found[OF assms])

lemma cancel_alone_found:
  assumes "findById db rid = Some r"
  shows "cancelReservation ts db rid =
    (if status r = CANCELLED \<or> status r = EXPIRED then (db, Inr r)
     else if status r = CONFIRMED then (db, Inl (INVALID_STATUS_TRANSITION CONFIRMED))
     else (db\<lparr>reservations :=
                update_where (\<lambda>r. r_id r = rid \<and> status r = PENDING)
                  (\<lambda>r. r\<lparr> status := CANCELLED, cancelled_at := Some ts \<rparr>) (reservations db)\<rparr>,
           Inr (r\<lparr> status := CANCELLED, cancelled_at := Some ts \<rparr>)))"
  using assms
  apply (simp add: cancelReservation_def cancelReservation_among_def repo_cancel_found[OF assms])
  apply (cases "status r"; simp)
  done

lemma confirm_alone_success:
  assumes "confirmReservation tc ts tg db rid = (db1, Inr r1)"
  shows "findById db1 rid = Some r1 \<and> status r1 = CONFIRMED"
proof (cases "findById db rid")
  case None
  with assms show ?thesis
    by (simp add: confirmReservation_def confirmReservation_among_def)
next
  case (Some r)
  from assms Some findById_key[OF Some] show ?thesis
    unfolding confirm_alone_found[OF Some]
    by (auto simp: findById_update_where split: if_splits)
qed

lemma confirm_alone_cases:
  assumes "confirmReservation tc ts tg db rid = (db', res)"
  shows "db' = db \<or>
         db' = db\<lparr>reservations :=
                    update_where (\<lambda>r. r_id r = rid \<and> status r = PENDING \<and> expires_at r > tg)
                      (\<lambda>r. r\<lparr> status := CONFIRMED, confirmed_at := Some ts \<rparr>) (reservations db)\<rparr>"
  using assms
  by (auto simp: confirmReservation_def confirmReservation_among_def repo_confirmReservation_def Let_def
      split: option.splits if_splits)

lemma cancel_alone_cases:
  assumes "cancelReservation ts db rid = (db', res)"
  shows "db' = db \<or>
         db' = db\<lparr>reservations :=
                    update_where (\<lambda>r. r_id r = rid \<and> status r = PENDING)
                      (\<lambda>r. r\<lparr> status := CANCELLED, cancelled_at := Some ts \<rparr>) (reservations db)\<rparr>"
  using assms
  by (auto simp: cancelReservation_def cancelReservation_among_def repo_cancelReservation_def Let_def
      split: option.splits if_splits)

lemma expire_found:
  "findById (fst (expireReservations order ts tg db)) rid =
     map_option (\<lambda>r. if status r = PENDING \<and> expires_at r \<le> tg
                      then r\<lparr> status := EXPIRED, expired_at := Some ts \<rparr> else r) (findById db rid)"
  by (simp add: expireReservations_def repo_expireReservations_def Let_def findById_update_where)

section \<open>Admission\<close>

lemma foldr_max_ge: "x \<in> set used \<Longrightarrow> x \<le> foldr max used (0::nat)"
  by (induction used) auto

lemma uuid_generate_v4_fresh: "uuid_generate_v4 used \<notin> set used"
proof
  assume "uuid_generate_v4 used \<in> set used"
  from foldr_max_ge[OF this] show False by (simp add: uuid_generate_v4_def)
qed

lemma filter_fresh_key:
  "k \<notin> set (map r_id rows) \<Longrightarrow> filter (\<lambda>x. r_id x = k) rows = []"
  by (induction rows) auto

lemma findById_append_fresh:
  assumes "r_id row \<notin> set (map r_id (reservations db))"
  shows "findById (db\<lparr>reservations := reservations db @ [row]\<rparr>) (r_id row) = Some row"
  using filter_fresh_key[OF assms] by (simp add: findById_def single_def)

lemma new_reservation_fresh:
  "r_id (new_reservation db now i c q s e) \<notin> set (map r_id (reservations db))"
  using uuid_generate_v4_fresh[of "map r_id (reservations db)"] by (simp add: new_reservation_def)

lemma new_reservation_sel:
  "item_id (new_reservation db now i c q s e) = i"
  "customer_id (new_reservation db now i c q s e) = c"
  "quantity (new_reservation db now i c q s e) = q"
  "status (new_reservation db now i c q s e) = s"
  "expires_at (new_reservation db now i c q s e) = e"
  "created_at (new_reservation db now i c q s e) = now"
  by (simp_all add: new_reservation_def)

lemma varchar255_short: "length s \<le> 255 \<Longrightarrow> varchar255 s = Some s"
  by (simp add: varchar255_def)

lemma insert_reservation_eq:
  "insert_reservation db now i c q s e =
     (if \<not> int4 q then (db, Inl numeric_value_out_of_range)
      else case varchar255 c of
        None \<Rightarrow> (db, Inl string_data_right_truncation)
      | Some c' \<Rightarrow>
          if \<not> (q > 0 \<and> e > now) then (db, Inl check_violation)
          else if i \<notin> set (map i_id (items db)) then (db, Inl foreign_key_violation)
          else (db\<lparr>reservations := reservations db @ [new_reservation db now i c' q s e]\<rparr>,
                Inr (r_id (new_reservation db now i c' q s e))))"
  by (simp add: insert_reservation_def Let_def new_reservation_sel split: option.splits)

lemma item_findById_SomeD:
  "item_findById db i = Some it \<Longrightarrow> filter (\<lambda>x. i_id x = i) (items db) = [it]"
  by (simp add: item_findById_def single_Some_iff)

lemma item_findById_mem:
  assumes "item_findById db i = Some it"
  shows "i \<in> set (map i_id (items db))"
proof -
  have "it \<in> set (filter (\<lambda>x. i_id x = i) (items db))"
    by (simp add: item_findById_SomeD[OF assms])
  then show ?thesis by auto
qed

lemma sums_fit_found:
  assumes "item_findById db i = Some it"
  shows "sums_fit db now i \<longleftrightarrow>
           int4 (getActiveReservedQuantity db now i) \<and> int4 (getConfirmedQuantity db i) \<and>
           int4 (total_quantity it - getActiveReservedQuantity db now i) \<and>
           int4 (total_quantity it - getActiveReservedQuantity db now i - getConfirmedQuantity db i)"
  by (simp add: sums_fit_def assms)

lemma create_reservation_atomic_found:
  assumes "item_findById db i = Some it"
  shows "create_reservation_atomic db now i c q e =
    (if \<not> int4 q \<or> \<not> sums_fit db now i then (db, Inl numeric_value_out_of_range)
     else if total_quantity it - getActiveReservedQuantity db now i - getConfirmedQuantity db i < q
       then (db, Inr None)
     else case varchar255 c of
       None \<Rightarrow> (db, Inl string_data_right_truncation)
     | Some c' \<Rightarrow>
         if \<not> (q > 0 \<and> e > now) then (db, Inl check_violation)
         else (db\<lparr>reservations := reservations db @ [new_reservation db now i c' q PENDING e]\<rparr>,
               Inr (Some (r_id (new_reservation db now i c' q PENDING e)))))"
  using item_findById_mem[OF assms]
  by (simp add: create_reservation_atomic_def item_findById_SomeD[OF assms] Let_def
      sums_fit_found[OF assms] getActiveReservedQuantity_def getConfirmedQuantity_def
      insert_reservation_eq split: option.splits)

lemma createAtomic_found:
  assumes "item_findById db i = Some it"
  shows "createAtomic db now i c q e =
    (if \<not> int4 q \<or> \<not> sums_fit db now i then (db, Inl (Error ''Failed to create reservation''))
     else if total_quantity it - getActiveReservedQuantity db now i - getConfirmedQuantity db i < q
       then (db, Inr None)
     else case varchar255 c of
       None \<Rightarrow> (db, Inl (Error ''Failed to create reservation''))
     | Some c' \<Rightarrow>
         if \<not> (q > 0 \<and> e > now) then (db, Inl (Error ''Failed to create reservation''))
         else (db\<lparr>reservations := reservations db @ [new_reservation db now i c' q PENDING e]\<rparr>,
               Inr (Some (new_reservation db now i c' q PENDING e))))"
  by (simp add: createAtomic_def create_reservation_atomic_found[OF assms]
      findById_append_fresh[OF new_reservation_fresh] split: option.splits)

lemma createReservation_found:
  assumes "item_findById db i = Some it"
  shows "createReservation E te tsq tr db i c q =
    (if \<not> int4 q \<or> \<not> sums_fit db tsq i then (db, Inl (Error ''Failed to create reservation''))
     else if total_quantity it - getActiveReservedQuantity db tsq i - getConfirmedQuantity db i < q
       then (db, Inl (INSUFFICIENT_QUANTITY q
               (total_quantity it - getActiveReservedQuantity db tr i - getConfirmedQuantity db i)))
     else case varchar255 c of
       None \<Rightarrow> (db, Inl (Error ''Failed to create reservation''))
     | Some c' \<Rightarrow>
         if \<not> (q > 0 \<and> te + E > tsq) then (db, Inl (Error ''Failed to create reservation''))
         else (db\<lparr>reservations := reservations db @ [new_reservation db tsq i c' q PENDING (te + E)]\<rparr>,
               Inr (new_reservation db tsq i c' q PENDING (te + E))))"
  by (simp add: createReservation_def assms createAtomic_found[OF assms] Let_def
      split: option.splits)

lemma createReservation_not_found:
  "item_findById db i = None \<Longrightarrow> createReservation E te tsq tr db i c q = (db, Inl ITEM_NOT_FOUND)"
  by (simp add: createReservation_def)

section \<open>What an item has committed\<close>

lemma sum_quantity_Nil: "sum_quantity P [] = 0"
  by (simp add: sum_quantity_def)

lemma sum_quantity_Cons:
  "sum_quantity P (r # rows) = (if P r then quantity r else 0) + sum_quantity P rows"
  by (simp add: sum_quantity_def)

lemma sum_quantity_append:
  "sum_quantity P (xs @ ys) = sum_quantity P xs + sum_quantity P ys"
  by (simp add: sum_quantity_def)

lemma committed_as_held:
  "getConfirmedQuantity db i + getActiveReservedQuantity db t i =
   sum_list (map (held t i) (reservations db))"
proof -
  have "sum_quantity (\<lambda>r. item_id r = i \<and> status r = CONFIRMED) rows +
        sum_quantity (\<lambda>r. item_id r = i \<and> status r = PENDING \<and> expires_at r > t) rows =
        sum_list (map (held t i) rows)" for rows
    by (induction rows) (auto simp: sum_quantity_Cons sum_quantity_Nil held_def)
  then show ?thesis
    by (simp add: getConfirmedQuantity_def getActiveReservedQuantity_def)
qed

lemma held_antimono: "0 \<le> quantity r \<Longrightarrow> t \<le> t' \<Longrightarrow> held t' i r \<le> held t i r"
  by (auto simp: held_def)

lemma sum_held_later:
  assumes "\<And>r. r \<in> set rows \<Longrightarrow> 0 < quantity r" and "t \<le> t'"
  shows "sum_list (map (held t' i) rows) \<le> sum_list (map (held t i) rows)"
  using assms by (intro sum_list_mono held_antimono) (auto intro: less_imp_le)

lemma sum_held_none:
  "(\<And>r. r \<in> set rows \<Longrightarrow> held t i r = 0) \<Longrightarrow> sum_list (map (held t i) rows) = 0"
  by (induction rows) auto

lemma sum_held_update_where:
  assumes "\<And>r. r \<in> set rows \<Longrightarrow> g r \<Longrightarrow> held t i (f r) \<le> held t i r"
  shows "sum_list (map (held t i) (update_where g f rows)) \<le> sum_list (map (held t i) rows)"
  using assms unfolding update_where_def
  by (induction rows) (auto intro: add_mono)

lemma distinct_filter_key:
  assumes "distinct (map i_id its)" and "it \<in> set its"
  shows "filter (\<lambda>x. i_id x = i_id it) its = [it]"
  using assms
proof (induction its)
  case Nil
  then show ?case by simp
next
  case (Cons a its)
  show ?case
  proof (cases "a = it")
    case True
    with Cons.prems have "i_id it \<notin> i_id ` set its" by simp
    then have "\<And>x. x \<in> set its \<Longrightarrow> i_id x \<noteq> i_id it" by (metis imageI)
    then have "filter (\<lambda>x. i_id x = i_id it) its = []" by (auto simp: filter_empty_conv)
    with True show ?thesis by simp
  next
    case False
    with Cons.prems have "it \<in> set its" "i_id a \<noteq> i_id it" by auto
    with Cons show ?thesis by simp
  qed
qed

section \<open>Every operation keeps the database consistent\<close>

lemma consistent_later:
  assumes "consistent now db" and "now \<le> now'"
  shows "consistent now' db"
proof -
  have "sum_list (map (held now' i) (reservations db)) \<le> sum_list (map (held now i) (reservations db))" for i
    using assms by (intro sum_held_later) (auto simp: consistent_def)
  with assms(1) show ?thesis
    unfolding consistent_def by (meson order_trans)
qed

lemma consistent_update_where:
  assumes c: "consistent t db"
    and q: "\<And>r. quantity (f r) = quantity r"
    and k: "\<And>r. item_id (f r) = item_id r"
    and h: "\<And>r i. r \<in> set (reservations db) \<Longrightarrow> g r \<Longrightarrow> held t i (f r) \<le> held t i r"
  shows "consistent t (db\<lparr>reservations := update_where g f (reservations db)\<rparr>)"
proof -
  have 1: "\<forall>r \<in> set (update_where g f (reservations db)).
             0 < quantity r \<and> item_id r \<in> set (map i_id (items db))"
    using c q k unfolding consistent_def update_where_def by auto
  have 2: "sum_list (map (held t i) (update_where g f (reservations db)))
           \<le> sum_list (map (held t i) (reservations db))" for i
    by (rule sum_held_update_where) (rule h)
  from c 1 2 show ?thesis
    unfolding consistent_def by (simp; meson order_trans)
qed

lemma consistent_confirm:
  assumes "consistent tg db" and "confirmReservation tc ts tg db rid = (db', res)"
  shows "consistent tg db'"
proof -
  have "consistent tg (db\<lparr>reservations :=
          update_where (\<lambda>r. r_id r = rid \<and> status r = PENDING \<and> expires_at r > tg)
            (\<lambda>r. r\<lparr> status := CONFIRMED, confirmed_at := Some ts \<rparr>) (reservations db)\<rparr>)"
    by (rule consistent_update_where[OF assms(1)]) (auto simp: held_def)
  with confirm_alone_cases[OF assms(2)] assms(1) show ?thesis by auto
qed

lemma consistent_cancel:
  assumes "consistent t db" and "cancelReservation ts db rid = (db', res)"
  shows "consistent t db'"
proof -
  have "\<And>r. r \<in> set (reservations db) \<Longrightarrow> 0 < quantity r"
    using assms(1) by (simp add: consistent_def)
  then have "consistent t (db\<lparr>reservations :=
          update_where (\<lambda>r. r_id r = rid \<and> status r = PENDING)
            (\<lambda>r. r\<lparr> status := CANCELLED, cancelled_at := Some ts \<rparr>) (reservations db)\<rparr>)"
    by (intro consistent_update_where[OF assms(1)]) (auto simp: held_def intro: less_imp_le)
  with cancel_alone_cases[OF assms(2)] assms(1) show ?thesis by auto
qed

lemma consistent_expire:
  assumes "consistent t db" and "expireReservations order ts tg db = (db', res)"
  shows "consistent t db'"
proof -
  have "\<And>r. r \<in> set (reservations db) \<Longrightarrow> 0 < quantity r"
    using assms(1) by (simp add: consistent_def)
  then have "consistent t (db\<lparr>reservations :=
          update_where (\<lambda>r. status r = PENDING \<and> expires_at r \<le> tg)
            (\<lambda>r. r\<lparr> status := EXPIRED, expired_at := Some ts \<rparr>) (reservations db)\<rparr>)"
    by (intro consistent_update_where[OF assms(1)]) (auto simp: held_def intro: less_imp_le)
  with assms(2) show ?thesis
    by (auto simp: expireReservations_def repo_expireReservations_def Let_def)
qed

lemma consistent_createItem:
  assumes c: "consistent t db" and s: "createItem now db n q = (db', res)"
  shows "consistent t db'"
proof (cases "db' = db")
  case True
  with c show ?thesis by simp
next
  case False
  let ?k = "uuid_generate_v4 (map i_id (items db))"
  from False s obtain n' where q: "0 < q"
    and db': "db' = db\<lparr>items := items db @
                [\<lparr> i_id = ?k, name = n', total_quantity = q, i_created_at = now, updated_at = now \<rparr>]\<rparr>"
    by (auto simp: createItem_def item_create_def Let_def split: if_splits option.splits)
  have fresh: "?k \<notin> set (map i_id (items db))" by (rule uuid_generate_v4_fresh)
  have "\<And>r. r \<in> set (reservations db) \<Longrightarrow> item_id r \<noteq> ?k"
    using c fresh unfolding consistent_def by metis
  then have "\<And>r. r \<in> set (reservations db) \<Longrightarrow> held t ?k r = 0"
    by (simp add: held_def)
  then have z: "sum_list (map (held t ?k) (reservations db)) = 0"
    by (rule sum_held_none)
  from c fresh q z show ?thesis
    unfolding db' consistent_def by auto
qed

lemma consistent_createReservation:
  assumes c: "consistent t db" and le: "t \<le> tsq" "tsq \<le> tr"
    and s: "createReservation E te tsq tr db i cu q = (db', res)"
  shows "consistent tr db'"
proof -
  have c': "consistent tr db" using c le by (auto intro: consistent_later)
  show ?thesis
  proof (cases "item_findById db i")
    case None
    with s c' show ?thesis by (simp add: createReservation_not_found)
  next
    case (Some it)
    show ?thesis
    proof (cases "db' = db")
      case True
      with c' show ?thesis by simp
    next
      case False
      with s obtain cu' where
        adm: "\<not> total_quantity it - getActiveReservedQuantity db tsq i - getConfirmedQuantity db i < q"
        and q: "0 < q"
        and db': "db' = db\<lparr>reservations := reservations db @
                     [new_reservation db tsq i cu' q PENDING (te + E)]\<rparr>"
        unfolding createReservation_found[OF Some] by (auto split: if_splits option.splits)
      let ?new = "new_reservation db tsq i cu' q PENDING (te + E)"
      have pos: "\<And>r. r \<in> set (reservations db) \<Longrightarrow> 0 < quantity r"
        using c by (simp add: consistent_def)
      have bound: "sum_list (map (held tr (i_id j)) (reservations db')) \<le> total_quantity j"
        if j: "j \<in> set (items db)" for j
      proof (cases "i_id j = i")
        case False
        then have "held tr (i_id j) ?new = 0" by (simp add: held_def new_reservation_sel)
        with c' j show ?thesis by (simp add: db' consistent_def)
      next
        case True
        from c j have "filter (\<lambda>x. i_id x = i_id j) (items db) = [j]"
          by (intro distinct_filter_key) (auto simp: consistent_def)
        with True item_findById_SomeD[OF Some] have jit: "j = it" by simp
        have "held tr i ?new \<le> q" using q by (simp add: held_def new_reservation_sel)
        moreover have "sum_list (map (held tr i) (reservations db))
                       \<le> sum_list (map (held tsq i) (reservations db))"
          by (rule sum_held_later[OF pos le(2)])
        moreover have "sum_list (map (held tsq i) (reservations db)) + q \<le> total_quantity it"
          using adm committed_as_held[of db i tsq] by simp
        ultimately show ?thesis using True jit by (simp add: db')
      qed
      have fk: "i \<in> set (map i_id (items db))" by (rule item_findById_mem[OF Some])
      from c q fk bound show ?thesis
        unfolding consistent_def db' by (auto simp: new_reservation_sel)
    qed
  qed
qed

lemma serial_consistent: "serial now db \<Longrightarrow> consistent now db"
proof (induction rule: serial.induct)
  case (start now)
  then show ?case by (simp add: consistent_def)
next
  case (wait now db now')
  then show ?case by (auto intro: consistent_later)
next
  case (CreateItem now db n q db' res)
  then show ?case by (auto intro: consistent_createItem)
next
  case (CreateReservation now db t_exp t_sql t_read expiry_ms i c q db' res)
  then show ?case by (auto intro: consistent_createReservation[where t = now and tsq = t_sql])
next
  case (Confirm now db t_check t_set t_guard rid db' res)
  then have "consistent t_guard db" by (auto intro: consistent_later)
  with Confirm show ?case by (auto intro: consistent_confirm)
next
  case (Cancel now db t_set rid db' res)
  then have "consistent t_set db" by (auto intro: consistent_later)
  with Cancel show ?case by (auto intro: consistent_cancel)
next
  case (ExpireDue now db t_set t_guard order db' res)
  then have "consistent t_guard db" by (auto intro: consistent_later)
  with ExpireDue show ?case by (auto intro: consistent_expire)
qed

text \<open>
  Requests that run one after the other never oversell: in every state they reach, every
  item has committed, in CONFIRMED rows and in PENDING rows still ahead of their expiry,
  at most its \<open>total_quantity\<close>.
\<close>

lemma serial_no_oversell:
  assumes "serial now db"
  shows "\<forall>i \<in> set (items db).
           getConfirmedQuantity db (i_id i) + getActiveReservedQuantity db now (i_id i)
           \<le> total_quantity i"
  using serial_consistent[OF assms] by (simp add: consistent_def committed_as_held)

section \<open>Contention\<close>

lemma sum_quantity_nonneg:
  "list_all (\<lambda>r. 0 < quantity r) rows \<Longrightarrow> 0 \<le> sum_quantity P rows"
  by (induction rows) (auto simp: sum_quantity_Cons sum_quantity_Nil)

lemma columns_ok_sums:
  assumes "columns_ok db"
  shows "0 \<le> getActiveReservedQuantity db now i \<and> 0 \<le> getConfirmedQuantity db i"
proof -
  from assms have "list_all (\<lambda>r. 0 < quantity r) (reservations db)"
    by (simp add: columns_ok_def list_all_iff)
  then show ?thesis
    by (simp add: getActiveReservedQuantity_def getConfirmedQuantity_def sum_quantity_nonneg)
qed

lemma columns_ok_total:
  assumes "columns_ok db" and "item_findById db i = Some it"
  shows "int4 (total_quantity it)"
proof -
  have "it \<in> set (filter (\<lambda>x. i_id x = i) (items db))"
    by (simp add: item_findById_SomeD[OF assms(2)])
  then have "it \<in> set (items db)" by simp
  with assms(1) show ?thesis by (simp add: columns_ok_def list_all_iff)
qed

text \<open>
  While the rows satisfy the schema and the item is not oversold, the sums of the stored
  procedure fit its variables.
\<close>

lemma columns_ok_sums_fit:
  assumes c: "columns_ok db"
    and a: "getConfirmedQuantity db i + getActiveReservedQuantity db now i \<le> total_quantity it"
    and f: "item_findById db i = Some it"
  shows "sums_fit db now i"
  using columns_ok_sums[OF c, of now i] columns_ok_total[OF c f] a
  unfolding sums_fit_found[OF f] int4_def by auto

lemma reserved_quiet:
  assumes "quiet db i t0 t1" "t0 \<le> t" "t \<le> t1"
  shows "getActiveReservedQuantity db t i = getActiveReservedQuantity db t0 i"
proof -
  have "filter (\<lambda>r. item_id r = i \<and> status r = PENDING \<and> expires_at r > t) (reservations db) =
        filter (\<lambda>r. item_id r = i \<and> status r = PENDING \<and> expires_at r > t0) (reservations db)"
    using assms by (intro filter_cong) (auto simp: quiet_def)
  then show ?thesis by (simp add: getActiveReservedQuantity_def sum_quantity_def)
qed

lemma succeeded_simps:
  "succeeded (Inl e) = False" "succeeded (Inr r) = (status r = PENDING)"
  by (simp_all add: succeeded_def)

lemma insufficient_simps:
  "insufficient (Inl (INSUFFICIENT_QUANTITY a b)) = True" "insufficient (Inr r) = False"
  by (simp_all add: insufficient_def)

text \<open>A call that runs alone is its round trips one after the other.\<close>

lemma createReservation_as_steps:
  "(case create_step E te (i, c, q) db Lookup of (db1, s1) \<Rightarrow>
    case create_step E tsq (i, c, q) db1 s1 of (db2, s2) \<Rightarrow>
    case create_step E tr (i, c, q) db2 s2 of (db3, s3) \<Rightarrow>
    create_step E tr (i, c, q) db3 s3) =
   (fst (createReservation E te tsq tr db i c q), Finished (snd (createReservation E te tsq tr db i c q)))"
  by (auto simp: createReservation_def createAtomic_def Let_def
      split: option.splits prod.splits sum.splits pg_exception.splits)

lemma length_filter_update:
  "k < length xs \<Longrightarrow>
   int (length (filter P (xs[k := y]))) =
   int (length (filter P xs)) - (if P (xs ! k) then 1 else 0) + (if P y then 1 else 0)"
proof (induction xs arbitrary: k)
  case Nil
  then show ?case by simp
next
  case (Cons x xs)
  show ?case
  proof (cases k)
    case 0
    then show ?thesis by simp
  next
    case (Suc j)
    with Cons.prems have "j < length xs" by simp
    from Cons.IH[OF this] Suc show ?thesis by (simp split: if_splits)
  qed
qed

lemma set_update_cases:
  "p \<in> set (xs[k := y]) \<Longrightarrow> p = y \<or> p \<in> set xs"
  using set_update_subset_insert[of xs k y] by auto

lemma findById_append_other:
  assumes "r_id row \<notin> set (map r_id (reservations db))" and "findById db k = Some r"
  shows "findById (db\<lparr>reservations := reservations db @ [row]\<rparr>) k = Some r"
proof -
  have "r \<in> set (filter (\<lambda>x. r_id x = k) (reservations db))"
    by (simp add: findById_SomeD[OF assms(2)])
  then have "k \<in> set (map r_id (reservations db))" by auto
  with assms(1) have "r_id row \<noteq> k" by auto
  with findById_SomeD[OF assms(2)] show ?thesis
    by (simp add: findById_def single_def)
qed

lemma task_ok_append:
  assumes "r_id row \<notin> set (map r_id (reservations db))" and "task_ok it t1 db s"
  shows "task_ok it t1 (db\<lparr>reservations := reservations db @ [row]\<rparr>) s"
  using assms
  by (cases s) (auto simp: findById_append_other split: option.splits)

lemma task_ok_same_rows:
  "reservations db' = reservations db \<Longrightarrow> task_ok it t1 db' s = task_ok it t1 db s"
  by (cases s) (auto simp: findById_def)

lemma contention_same_db:
  assumes inv: "contention_inv i it t0 t1 N db tasks"
    and k: "k < length tasks" and tk: "tasks ! k = (req, s)"
    and a: "admitted s' = admitted s"
    and r: "rejected s' \<Longrightarrow> rejected s \<or>
              total_quantity it - getActiveReservedQuantity db t0 i - getConfirmedQuantity db i = 0"
    and ok: "task_ok it t1 db s'"
  shows "contention_inv i it t0 t1 N db (tasks[k := (req, s')])"
proof -
  have mem: "(req, s) \<in> set tasks" using k tk by (metis nth_mem)
  have cnt: "int (length (filter (\<lambda>p. admitted (snd p)) (tasks[k := (req, s')]))) =
             int (length (filter (\<lambda>p. admitted (snd p)) tasks))"
    using length_filter_update[OF k, of "\<lambda>p. admitted (snd p)" "(req, s')"] tk a by simp
  have rej: "total_quantity it - getActiveReservedQuantity db t0 i - getConfirmedQuantity db i = 0"
    if "\<exists>p \<in> set (tasks[k := (req, s')]). rejected (snd p)"
  proof -
    from that obtain p where p: "p \<in> set (tasks[k := (req, s')])" "rejected (snd p)" by blast
    from set_update_cases[OF p(1)] show ?thesis
    proof
      assume "p = (req, s')"
      with p(2) r have "rejected s \<or>
          total_quantity it - getActiveReservedQuantity db t0 i - getConfirmedQuantity db i = 0" by simp
      with mem inv show ?thesis unfolding contention_inv_def by force
    next
      assume "p \<in> set tasks"
      with p(2) inv show ?thesis unfolding contention_inv_def by blast
    qed
  qed
  have each: "fst (fst p) = i \<and> length (fst (snd (fst p))) \<le> 255 \<and> snd (snd (fst p)) = 1 \<and>
              task_ok it t1 db (snd p)"
    if "p \<in> set (tasks[k := (req, s')])" for p
  proof -
    from set_update_cases[OF that] show ?thesis
    proof
      assume "p = (req, s')"
      with mem inv ok show ?thesis unfolding contention_inv_def by force
    next
      assume "p \<in> set tasks"
      with inv show ?thesis unfolding contention_inv_def by blast
    qed
  qed
  from inv have base: "item_findById db i = Some it" "quiet db i t0 t1" "int4 (total_quantity it)"
    "0 \<le> getActiveReservedQuantity db t0 i" "0 \<le> getConfirmedQuantity db i"
    "0 \<le> total_quantity it - getActiveReservedQuantity db t0 i - getConfirmedQuantity db i"
    "total_quantity it - getActiveReservedQuantity db t0 i - getConfirmedQuantity db i
       + int (length (filter (\<lambda>p. admitted (snd p)) tasks)) = int N"
    unfolding contention_inv_def by simp_all
  show ?thesis
    unfolding contention_inv_def cnt
    using base rej each by (intro conjI impI ballI) simp_all
qed

lemma contention_admit:
  assumes inv: "contention_inv i it t0 t1 N db tasks"
    and k: "k < length tasks" and tk: "tasks ! k = ((i, c, 1), Admit it e)"
    and late: "t1 < e" and now: "t0 \<le> now" "now \<le> t1"
    and room: "\<not> total_quantity it - getActiveReservedQuantity db t0 i - getConfirmedQuantity db i < 1"
  shows "contention_inv i it t0 t1 N
           (db\<lparr>reservations := reservations db @ [new_reservation db now i c 1 PENDING e]\<rparr>)
           (tasks[k := ((i, c, 1), Fetch (r_id (new_reservation db now i c 1 PENDING e)))])"
proof -
  let ?new = "new_reservation db now i c 1 PENDING e"
  let ?db' = "db\<lparr>reservations := reservations db @ [?new]\<rparr>"
  let ?tasks' = "tasks[k := ((i, c, 1), Fetch (r_id ?new))]"
  let ?a = "total_quantity it - getActiveReservedQuantity db t0 i - getConfirmedQuantity db i"
  let ?a' = "total_quantity it - getActiveReservedQuantity ?db' t0 i - getConfirmedQuantity ?db' i"
  have mem: "((i, c, 1), Admit it e) \<in> set tasks" using k tk by (metis nth_mem)
  with inv have len: "length c \<le> 255" unfolding contention_inv_def by force
  have i1: "item_findById ?db' i = Some it"
    using inv by (simp add: contention_inv_def item_findById_def)
  have q: "quiet ?db' i t0 t1"
    using inv late by (auto simp: contention_inv_def quiet_def new_reservation_sel)
  have r': "getActiveReservedQuantity ?db' t0 i = getActiveReservedQuantity db t0 i + 1"
    and c': "getConfirmedQuantity ?db' i = getConfirmedQuantity db i"
    using late now
    by (simp_all add: getActiveReservedQuantity_def getConfirmedQuantity_def sum_quantity_append
        sum_quantity_Cons sum_quantity_Nil new_reservation_sel)
  have cnt: "int (length (filter (\<lambda>p. admitted (snd p)) ?tasks')) =
             int (length (filter (\<lambda>p. admitted (snd p)) tasks)) + 1"
    using length_filter_update[OF k, of "\<lambda>p. admitted (snd p)" "((i, c, 1), Fetch (r_id ?new))"] tk
    by simp
  have norej: "\<not> (\<exists>p \<in> set tasks. rejected (snd p))"
    using inv room unfolding contention_inv_def by auto
  have rej: "\<not> (\<exists>p \<in> set ?tasks'. rejected (snd p))"
  proof
    assume "\<exists>p \<in> set ?tasks'. rejected (snd p)"
    then obtain p where p: "p \<in> set ?tasks'" "rejected (snd p)" by blast
    from set_update_cases[OF p(1)] p(2) norej show False by auto
  qed
  have fresh: "r_id ?new \<notin> set (map r_id (reservations db))" by (rule new_reservation_fresh)
  have each: "fst (fst p) = i \<and> length (fst (snd (fst p))) \<le> 255 \<and> snd (snd (fst p)) = 1 \<and>
              task_ok it t1 ?db' (snd p)"
    if "p \<in> set ?tasks'" for p
  proof -
    from set_update_cases[OF that] show ?thesis
    proof
      assume "p = ((i, c, 1), Fetch (r_id ?new))"
      with len show ?thesis
        by (simp add: findById_append_fresh[OF fresh] new_reservation_sel)
    next
      assume "p \<in> set tasks"
      with inv have "fst (fst p) = i \<and> length (fst (snd (fst p))) \<le> 255 \<and> snd (snd (fst p)) = 1 \<and>
                     task_ok it t1 db (snd p)"
        unfolding contention_inv_def by blast
      then show ?thesis using task_ok_append[OF fresh] by blast
    qed
  qed
  from inv room have n: "?a + int (length (filter (\<lambda>p. admitted (snd p)) tasks)) = int N" "1 \<le> ?a"
    "int4 (total_quantity it)" "0 \<le> getActiveReservedQuantity db t0 i" "0 \<le> getConfirmedQuantity db i"
    unfolding contention_inv_def by auto
  show ?thesis
    unfolding contention_inv_def r' c' cnt
    using i1 q rej each n by (intro conjI impI ballI) simp_all
qed

lemma contention_sums_fit:
  assumes inv: "contention_inv i it t0 t1 N db tasks" and now: "t0 \<le> now" "now \<le> t1"
  shows "sums_fit db now i"
proof -
  from inv have item: "item_findById db i = Some it" and quiet: "quiet db i t0 t1"
    and b: "int4 (total_quantity it)" "0 \<le> getActiveReservedQuantity db t0 i"
      "0 \<le> getConfirmedQuantity db i"
      "0 \<le> total_quantity it - getActiveReservedQuantity db t0 i - getConfirmedQuantity db i"
    unfolding contention_inv_def by simp_all
  have same: "getActiveReservedQuantity db now i = getActiveReservedQuantity db t0 i"
    by (rule reserved_quiet[OF quiet now])
  from b show ?thesis
    unfolding sums_fit_found[OF item] same int4_def by auto
qed

lemma contention_step:
  assumes inv: "contention_inv i it t0 t1 N db tasks"
    and k: "k < length tasks" and tk: "tasks ! k = (req, s)"
    and now: "t0 \<le> now" "now \<le> t1" and E: "t1 - t0 < E"
    and st: "create_step E now req db s = (db', s')"
  shows "contention_inv i it t0 t1 N db' (tasks[k := (req, s')])"
proof -
  have mem: "(req, s) \<in> set tasks" using k tk by (metis nth_mem)
  with inv have rq: "fst req = i" "snd (snd req) = 1" "length (fst (snd req)) \<le> 255"
    and ok: "task_ok it t1 db s"
    unfolding contention_inv_def by force+
  obtain c where req: "req = (i, c, 1)" and len: "length c \<le> 255" using rq by (cases req) auto
  have item: "item_findById db i = Some it" and quiet: "quiet db i t0 t1"
    using inv by (simp_all add: contention_inv_def)
  show ?thesis
  proof (cases s)
    case Lookup
    with st item req have "db' = db" "s' = Admit it (now + E)" by auto
    moreover have "t1 < now + E" using now E by simp
    ultimately show ?thesis
      using contention_same_db[OF inv k tk, of s'] Lookup by simp
  next
    case (Admit item' e)
    with ok have e: "item' = it" "t1 < e" by simp_all
    have same: "getActiveReservedQuantity db now i = getActiveReservedQuantity db t0 i"
      by (rule reserved_quiet[OF quiet now])
    have fit: "sums_fit db now i" by (rule contention_sums_fit[OF inv now])
    have one: "int4 1" by (simp add: int4_def)
    have atomic: "create_reservation_atomic db now i c 1 e =
      (if total_quantity it - getActiveReservedQuantity db t0 i - getConfirmedQuantity db i < 1
         then (db, Inr None)
       else (db\<lparr>reservations := reservations db @ [new_reservation db now i c 1 PENDING e]\<rparr>,
             Inr (Some (r_id (new_reservation db now i c 1 PENDING e)))))"
      using e now
      by (simp add: create_reservation_atomic_found[OF item] fit one same varchar255_short[OF len])
    show ?thesis
    proof (cases "total_quantity it - getActiveReservedQuantity db t0 i - getConfirmedQuantity db i < 1")
      case True
      with st Admit req e have "db' = db" "s' = ReadReserved it"
        by (simp_all add: atomic)
      moreover from True inv
      have "total_quantity it - getActiveReservedQuantity db t0 i - getConfirmedQuantity db i = 0"
        unfolding contention_inv_def by auto
      ultimately show ?thesis
        using contention_same_db[OF inv k tk, of s'] Admit by simp
    next
      case False
      with st Admit req e
      have "db' = db\<lparr>reservations := reservations db @ [new_reservation db now i c 1 PENDING e]\<rparr>"
           "s' = Fetch (r_id (new_reservation db now i c 1 PENDING e))"
        by (simp_all add: atomic)
      then show ?thesis
        using contention_admit[OF inv k _ e(2) now False, of c] tk Admit req e by simp
    qed
  next
    case (Fetch rid)
    with ok obtain r where r: "findById db rid = Some r" "status r = PENDING"
      by (auto split: option.splits)
    with st Fetch req have "db' = db" "s' = Finished (Inr r)" by auto
    then show ?thesis
      using contention_same_db[OF inv k tk, of s'] Fetch r by (simp add: succeeded_simps)
  next
    case (ReadReserved item')
    with st req have "db' = db" "s' = ReadConfirmed item' (getActiveReservedQuantity db now i)" by auto
    then show ?thesis
      using contention_same_db[OF inv k tk, of s'] ReadReserved by simp
  next
    case (ReadConfirmed item' x)
    with st req have "db' = db"
      "s' = Finished (Inl (INSUFFICIENT_QUANTITY 1 (total_quantity item' - x - getConfirmedQuantity db i)))"
      by (auto simp: Let_def)
    then show ?thesis
      using contention_same_db[OF inv k tk, of s'] ReadConfirmed by (simp add: insufficient_simps)
  next
    case (Finished res)
    with st req have "db' = db" "s' = s" by auto
    then show ?thesis
      using contention_same_db[OF inv k tk, of s] ok by simp
  qed
qed

lemma contention_run:
  assumes "contention_inv i it t0 t1 N db tasks"
    and "\<forall>p \<in> set sched. t0 \<le> snd p \<and> snd p \<le> t1" and "t1 - t0 < E"
  shows "contention_inv i it t0 t1 N (fst (interleave E sched (db, tasks))) (snd (interleave E sched (db, tasks)))"
  using assms
proof (induction sched arbitrary: db tasks)
  case Nil
  then show ?case by simp
next
  case (Cons a sched)
  obtain k now where a: "a = (k, now)" by (cases a)
  from Cons.prems(2) a have now: "t0 \<le> now" "now \<le> t1" and rest: "\<forall>p \<in> set sched. t0 \<le> snd p \<and> snd p \<le> t1"
    by auto
  show ?case
  proof (cases "k < length tasks")
    case False
    with Cons.IH[OF Cons.prems(1) rest Cons.prems(3)] a show ?thesis by simp
  next
    case True
    obtain req s where tk: "tasks ! k = (req, s)" by (cases "tasks ! k")
    obtain db' s' where st: "create_step E now req db s = (db', s')" by (cases "create_step E now req db s")
    from contention_step[OF Cons.prems(1) True tk now Cons.prems(3) st]
    have "contention_inv i it t0 t1 N db' (tasks[k := (req, s')])" .
    from Cons.IH[OF this rest Cons.prems(3)] a True tk st show ?thesis by simp
  qed
qed

lemma steps_left_step:
  "create_step E now req db s = (db', s') \<Longrightarrow> steps_left s' \<le> steps_left s - 1"
  by (cases req; cases s)
     (auto simp: Let_def split: option.splits prod.splits sum.splits pg_exception.splits)

lemma interleave_progress:
  "length (snd (interleave E sched (db, tasks))) = length tasks \<and>
   (\<forall>j < length tasks.
      steps_left (snd (snd (interleave E sched (db, tasks)) ! j))
        \<le> steps_left (snd (tasks ! j)) - count_list (map fst sched) j)"
proof (induction sched arbitrary: db tasks)
  case Nil
  then show ?case by simp
next
  case (Cons a sched)
  obtain k now where a: "a = (k, now)" by (cases a)
  show ?case
  proof (cases "k < length tasks")
    case False
    with Cons.IH[of db tasks] a show ?thesis by auto
  next
    case True
    obtain req s where tk: "tasks ! k = (req, s)" by (cases "tasks ! k")
    obtain db' s' where st: "create_step E now req db s = (db', s')"
      by (cases "create_step E now req db s")
    let ?tasks' = "tasks[k := (req, s')]"
    have run: "interleave E (a # sched) (db, tasks) = interleave E sched (db', ?tasks')"
      using a True tk st by simp
    from Cons.IH[of db' ?tasks']
    have len: "length (snd (interleave E sched (db', ?tasks'))) = length tasks"
      and prog: "\<And>j. j < length tasks \<Longrightarrow>
        steps_left (snd (snd (interleave E sched (db', ?tasks')) ! j))
          \<le> steps_left (snd (?tasks' ! j)) - count_list (map fst sched) j"
      by simp_all
    have "steps_left (snd (snd (interleave E sched (db', ?tasks')) ! j))
            \<le> steps_left (snd (tasks ! j)) - count_list (map fst (a # sched)) j"
      if j: "j < length tasks" for j
    proof (cases "j = k")
      case True
      with prog[OF j] steps_left_step[OF st] tk j a show ?thesis by simp
    next
      case False
      with prog[OF j] a show ?thesis by simp
    qed
    with len show ?thesis unfolding run by simp
  qed
qed

lemma outcomes_finished:
  assumes "\<forall>p \<in> set tasks. steps_left (snd p) = 0 \<and> task_ok it t1 db (snd p)"
  shows "length (outcomes tasks) = length tasks \<and>
         length (filter succeeded (outcomes tasks)) = length (filter (\<lambda>p. admitted (snd p)) tasks) \<and>
         length (filter insufficient (outcomes tasks)) = length (filter (\<lambda>p. rejected (snd p)) tasks) \<and>
         length (filter (\<lambda>p. admitted (snd p)) tasks) + length (filter (\<lambda>p. rejected (snd p)) tasks)
           = length tasks"
  using assms
proof (induction tasks)
  case Nil
  then show ?case by simp
next
  case (Cons p tasks)
  obtain req s where p: "p = (req, s)" by (cases p)
  from Cons.prems p have "steps_left s = 0" "task_ok it t1 db s" by auto
  then obtain res where s: "s = Finished res" "succeeded res \<or> insufficient res"
    by (cases s) auto
  from Cons.prems have "\<forall>p \<in> set tasks. steps_left (snd p) = 0 \<and> task_ok it t1 db (snd p)" by simp
  from Cons.IH[OF this] s p show ?case
    by (cases res rule: sum.exhaust; cases "projl res")
       (auto simp: succeeded_def insufficient_def)
qed

section \<open>The fixtures, evaluated\<close>

lemmas storage_defs =
  item_findById_def findById_def single_def getActiveReservedQuantity_def
  getConfirmedQuantity_def sum_quantity_def update_where_def uuid_generate_v4_def
  int4_def varchar255_def new_reservation_def insert_reservation_def
  create_reservation_atomic_def createAtomic_def repo_confirmReservation_def
  repo_cancelReservation_def

lemmas fixture_defs =
  shop_def tshirt_def hold_def boutique_def hoodie_def hold21_def glut_def

lemma shop_items: "item_findById shop 7 = Some tshirt"
  by (simp add: item_findById_def shop_def tshirt_def single_def)

lemma shop_holds:
  "findById shop 11 = Some (hold 11 PENDING 600)"
  "findById shop 12 = Some ((hold 12 CONFIRMED 600)\<lparr> confirmed_at := Some 50 \<rparr>)"
  "findById shop 13 = Some ((hold 13 CANCELLED 600)\<lparr> cancelled_at := Some 60 \<rparr>)"
  "findById shop 14 = Some ((hold 14 EXPIRED 70)\<lparr> expired_at := Some 80 \<rparr>)"
  "findById shop 15 = Some (hold 15 PENDING 100)"
  "findById shop 99 = None"
  by (simp_all add: findById_def shop_def hold_def single_def)

lemma shop_committed:
  "getConfirmedQuantity shop 7 = 3"
  "getActiveReservedQuantity shop 200 7 = 3"
  "getActiveReservedQuantity shop 100 7 = 3"
  "getActiveReservedQuantity shop 99 7 = 6"
  by (simp_all add: getConfirmedQuantity_def getActiveReservedQuantity_def sum_quantity_def
      shop_def hold_def)

lemma shop_columns: "columns_ok shop"
  by (simp add: columns_ok_def shop_def tshirt_def hold_def int4_def)

lemma shop_sums_fit: "sums_fit shop 200 7" "sums_fit shop 99 7"
  by (simp_all add: sums_fit_found[OF shop_items] shop_committed tshirt_def int4_def)

lemma shop_next_key: "uuid_generate_v4 (map r_id (reservations shop)) = 16"
  by (simp add: uuid_generate_v4_def shop_def hold_def)

lemma boutique_items: "item_findById boutique 8 = Some hoodie"
  by (simp add: item_findById_def boutique_def hoodie_def single_def)

lemma boutique_hold: "findById boutique 21 = Some hold21"
  by (simp add: findById_def boutique_def hold21_def single_def)

lemma glut_items: "item_findById glut 7 = Some tshirt"
  by (simp add: item_findById_def glut_def tshirt_def single_def)

section \<open>The claims\<close>

text \<open>
  C1. The claim: in every state that CreateReservation, Confirm, Cancel and ExpireDue
  reach, every item has committed, in CONFIRMED reservations and in PENDING reservations
  with \<open>expires_at > now\<close>, at most its \<open>total_quantity\<close>. The code keeps this when
  requests run one after the other (\<open>serial_no_oversell\<close>), and not when a Confirm
  overlaps an admission. The guarded update of Confirm compares \<^verbatim>\<open>expires_at\<close> with a
  timestamp that the application server took when it built the request; the stored
  procedure decides with \<^verbatim>\<open>NOW()\<close> of the database. In the boutique the item has one
  unit and hold 21 has it until 100; nothing is oversold at 99. A Confirm of hold 21 passes
  the check of the service at 99 and builds its update at 99. Before the database runs that
  update, at 101, it runs the stored procedure for another customer: hold 21 has lapsed,
  the unit is free, hold 22 is admitted. Then the update of the Confirm runs: 100 > 99, so
  hold 21 is CONFIRMED. At 101 the item of one unit has one unit confirmed and one unit
  pending ahead of its expiry.
\<close>

theorem oversell_by_late_confirm:
  "total_quantity hoodie = 1 \<and>
   getConfirmedQuantity boutique 8 = 0 \<and>
   getActiveReservedQuantity boutique 99 8 = 1 \<and>
   findById boutique 21 = Some hold21 \<and>
   rival_admission boutique =
     boutique\<lparr> reservations :=
       [hold21,
        \<lparr> r_id = 22, item_id = 8, customer_id = ''customer_004'', quantity = 1, status = PENDING,
          expires_at = 701, created_at = 101,
          confirmed_at = None, cancelled_at = None, expired_at = None \<rparr>] \<rparr> \<and>
   confirmReservation_among rival_admission id 99 99 99 boutique 21 =
     (boutique\<lparr> reservations :=
        [hold21\<lparr> status := CONFIRMED, confirmed_at := Some 99 \<rparr>,
         \<lparr> r_id = 22, item_id = 8, customer_id = ''customer_004'', quantity = 1, status = PENDING,
           expires_at = 701, created_at = 101,
           confirmed_at = None, cancelled_at = None, expired_at = None \<rparr>] \<rparr>,
      Inr (hold21\<lparr> status := CONFIRMED, confirmed_at := Some 99 \<rparr>)) \<and>
   getConfirmedQuantity (fst (confirmReservation_among rival_admission id 99 99 99 boutique 21)) 8 = 1 \<and>
   getActiveReservedQuantity (fst (confirmReservation_among rival_admission id 99 99 99 boutique 21)) 101 8 = 1"
proof -
  let ?new = "\<lparr> r_id = 22, item_id = 8, customer_id = ''customer_004'', quantity = 1, status = PENDING,
          expires_at = 701, created_at = 101,
          confirmed_at = None, cancelled_at = None, expired_at = None \<rparr>"
  let ?db' = "boutique\<lparr> reservations := [hold21\<lparr> status := CONFIRMED, confirmed_at := Some 99 \<rparr>, ?new] \<rparr>"
  have c: "getConfirmedQuantity boutique 8 = 0" "getActiveReservedQuantity boutique 99 8 = 1"
    by (simp_all add: storage_defs fixture_defs)
  have fit: "sums_fit boutique 101 8"
    unfolding sums_fit_found[OF boutique_items] by (simp add: storage_defs fixture_defs)
  have r: "rival_admission boutique = boutique\<lparr> reservations := [hold21, ?new] \<rparr>"
    unfolding rival_admission_def createReservation_found[OF boutique_items]
    by (simp add: fit) (simp add: storage_defs fixture_defs)
  have run: "confirmReservation_among rival_admission id 99 99 99 boutique 21 =
               (?db', Inr (hold21\<lparr> status := CONFIRMED, confirmed_at := Some 99 \<rparr>))"
    unfolding confirmReservation_among_def boutique_hold r
    by (simp add: storage_defs fixture_defs)
  have q: "getConfirmedQuantity ?db' 8 = 1" "getActiveReservedQuantity ?db' 101 8 = 1"
    by (simp_all add: storage_defs fixture_defs)
  from c r q show ?thesis
    unfolding run by (simp add: boutique_hold hoodie_def)
qed

text \<open>
  C2, as amended. \<open>M > N\<close> concurrent CreateReservation calls, each for one unit and each
  with a customer id of at most 255 characters, target one item that has exactly \<open>N\<close>
  units available, in a database whose rows satisfy the schema. The calls read the clock in
  a window from \<open>t0\<close> to \<open>t1\<close> that is shorter than the expiry duration and in which no
  hold on the item lapses. Then, however the round trips of the calls interleave, once
  each call has had the round trips it needs (four at most) every call has returned,
  exactly \<open>N\<close> of them with a PENDING reservation and exactly \<open>M - N\<close> with
  InsufficientQuantity, and the item has nothing left.
\<close>

theorem no_oversell_under_contention:
  assumes cols: "columns_ok db"
    and item: "item_findById db i = Some it"
    and avail: "total_quantity it - getActiveReservedQuantity db t0 i - getConfirmedQuantity db i = int N"
    and more: "N < length reqs"
    and reqs: "\<forall>req \<in> set reqs. fst req = i \<and> length (fst (snd req)) \<le> 255 \<and> snd (snd req) = 1"
    and window: "\<forall>p \<in> set sched. t0 \<le> snd p \<and> snd p \<le> t1"
    and quiet: "quiet db i t0 t1"
    and long: "t1 - t0 < expiry_ms"
    and fair: "\<forall>k < length reqs. 4 \<le> count_list (map fst sched) k"
  shows "length (outcomes (snd (interleave expiry_ms sched (db, map (\<lambda>req. (req, Lookup)) reqs))))
           = length reqs \<and>
         length (filter succeeded
           (outcomes (snd (interleave expiry_ms sched (db, map (\<lambda>req. (req, Lookup)) reqs))))) = N \<and>
         length (filter insufficient
           (outcomes (snd (interleave expiry_ms sched (db, map (\<lambda>req. (req, Lookup)) reqs)))))
           = length reqs - N \<and>
         total_quantity it
           - getActiveReservedQuantity
               (fst (interleave expiry_ms sched (db, map (\<lambda>req. (req, Lookup)) reqs))) t0 i
           - getConfirmedQuantity
               (fst (interleave expiry_ms sched (db, map (\<lambda>req. (req, Lookup)) reqs))) i = 0"
proof -
  let ?tasks = "map (\<lambda>req. (req, Lookup)) reqs"
  let ?db' = "fst (interleave expiry_ms sched (db, ?tasks))"
  let ?tasks' = "snd (interleave expiry_ms sched (db, ?tasks))"
  let ?a' = "total_quantity it - getActiveReservedQuantity ?db' t0 i - getConfirmedQuantity ?db' i"
  have none: "filter (\<lambda>p. admitted (snd p)) ?tasks = []"
    by (simp add: filter_empty_conv)
  have each: "\<forall>p \<in> set ?tasks. fst (fst p) = i \<and> length (fst (snd (fst p))) \<le> 255 \<and>
                snd (snd (fst p)) = 1 \<and> task_ok it t1 db (snd p)"
    using reqs by auto
  have norej: "\<not> (\<exists>p \<in> set ?tasks. rejected (snd p))" by auto
  have "contention_inv i it t0 t1 N db ?tasks"
    unfolding contention_inv_def none
    using item avail quiet columns_ok_sums[OF cols, of t0 i] columns_ok_total[OF cols item] each norej
    by (intro conjI impI) simp_all
  from contention_run[OF this window long]
  have inv: "contention_inv i it t0 t1 N ?db' ?tasks'" .
  from interleave_progress[of expiry_ms sched db ?tasks]
  have len: "length ?tasks' = length reqs"
    and prog: "\<And>j. j < length reqs \<Longrightarrow>
      steps_left (snd (?tasks' ! j)) \<le> 4 - count_list (map fst sched) j"
    by simp_all
  have fin: "\<forall>p \<in> set ?tasks'. steps_left (snd p) = 0 \<and> task_ok it t1 ?db' (snd p)"
  proof
    fix p assume "p \<in> set ?tasks'"
    then obtain j where j: "j < length reqs" "p = ?tasks' ! j"
      using len by (metis in_set_conv_nth)
    from prog[OF j(1)] fair j(1) have "steps_left (snd (?tasks' ! j)) = 0" by fastforce
    moreover from inv \<open>p \<in> set ?tasks'\<close> have "task_ok it t1 ?db' (snd p)"
      unfolding contention_inv_def by blast
    ultimately show "steps_left (snd p) = 0 \<and> task_ok it t1 ?db' (snd p)" using j(2) by simp
  qed
  from outcomes_finished[OF fin] len
  have o: "length (outcomes ?tasks') = length reqs"
    "length (filter succeeded (outcomes ?tasks')) = length (filter (\<lambda>p. admitted (snd p)) ?tasks')"
    "length (filter insufficient (outcomes ?tasks')) = length (filter (\<lambda>p. rejected (snd p)) ?tasks')"
    "length (filter (\<lambda>p. admitted (snd p)) ?tasks') + length (filter (\<lambda>p. rejected (snd p)) ?tasks')
       = length reqs"
    by simp_all
  from inv have a: "0 \<le> ?a'" "?a' + int (length (filter (\<lambda>p. admitted (snd p)) ?tasks')) = int N"
    and r: "(\<exists>p \<in> set ?tasks'. rejected (snd p)) \<longrightarrow> ?a' = 0"
    unfolding contention_inv_def by simp_all
  from a have le: "length (filter (\<lambda>p. admitted (snd p)) ?tasks') \<le> N" by linarith
  with o(4) more have "0 < length (filter (\<lambda>p. rejected (snd p)) ?tasks')" by linarith
  then have "\<exists>p \<in> set ?tasks'. rejected (snd p)"
    by (metis filter_False length_greater_0_conv)
  with r have z: "?a' = 0" by simp
  with a have adm: "length (filter (\<lambda>p. admitted (snd p)) ?tasks') = N" by simp
  with o z show ?thesis by simp
qed

theorem no_oversell_under_contention_witness:
  "columns_ok shop \<and>
   item_findById shop 7 = Some tshirt \<and>
   total_quantity tshirt - getActiveReservedQuantity shop 200 7 - getConfirmedQuantity shop 7 = int 4 \<and>
   4 < length rush \<and>
   list_all (\<lambda>req. fst req = 7 \<and> length (fst (snd req)) \<le> 255 \<and> snd (snd req) = 1) rush \<and>
   list_all (\<lambda>p. 200 \<le> snd p \<and> snd p \<le> 205) rush_schedule \<and>
   quiet shop 7 200 205 \<and>
   (205::int) - 200 < 600 \<and>
   list_all (\<lambda>k. 4 \<le> count_list (map fst rush_schedule) k) [0..<length rush] \<and>
   length (outcomes (snd (interleave 600 rush_schedule (shop, map (\<lambda>req. (req, Lookup)) rush)))) = 6 \<and>
   length (filter succeeded
     (outcomes (snd (interleave 600 rush_schedule (shop, map (\<lambda>req. (req, Lookup)) rush))))) = 4 \<and>
   length (filter insufficient
     (outcomes (snd (interleave 600 rush_schedule (shop, map (\<lambda>req. (req, Lookup)) rush))))) = 2 \<and>
   total_quantity tshirt
     - getActiveReservedQuantity
         (fst (interleave 600 rush_schedule (shop, map (\<lambda>req. (req, Lookup)) rush))) 200 7
     - getConfirmedQuantity
         (fst (interleave 600 rush_schedule (shop, map (\<lambda>req. (req, Lookup)) rush))) 7 = 0"
proof -
  have h2: "total_quantity tshirt - getActiveReservedQuantity shop 200 7 - getConfirmedQuantity shop 7 = int 4"
    by (simp add: shop_committed tshirt_def)
  have h3: "4 < length rush" by (simp add: rush_def)
  have h4: "\<forall>req \<in> set rush. fst req = 7 \<and> length (fst (snd req)) \<le> 255 \<and> snd (snd req) = 1"
    by (simp add: rush_def)
  have h5: "\<forall>p \<in> set rush_schedule. 200 \<le> snd p \<and> snd p \<le> 205" by (simp add: rush_schedule_def)
  have h6: "quiet shop 7 200 205" by (simp add: quiet_def shop_def hold_def)
  have h7: "(205::int) - 200 < 600" by simp
  have l: "length rush = 6" by (simp add: rush_def)
  have u: "[0..<6] = [0, 1, 2, 3, 4, 5::nat]" by (simp add: upt_rec)
  have h8': "list_all (\<lambda>k. 4 \<le> count_list (map fst rush_schedule) k) [0..<length rush]"
    unfolding l u by (simp add: rush_schedule_def)
  then have h8: "\<forall>k < length rush. 4 \<le> count_list (map fst rush_schedule) k"
    by (simp add: list_all_iff)
  from no_oversell_under_contention[OF shop_columns shop_items h2 h3 h4 h5 h6 h7 h8]
       shop_columns shop_items h2 h3 h4 h5 h6 h7 h8'
  show ?thesis by (simp add: l list_all_iff)
qed

text \<open>
  C2, as claimed, fails. In the shop, at 99, the item has one unit available: hold 15 has
  three until 100. Three calls for one unit follow one another at 99, 100 and 101; hold 15
  lapses in their midst and all three are admitted, where the claim has one success and
  two InsufficientQuantity. In the boutique, at 200, the item has its one unit available.
  With an expiry duration of one millisecond the hold of the first of two calls has lapsed
  when the second is decided, and both succeed. With the usual expiry duration and a
  first caller whose id has 256 characters, the insert of the first call is refused and
  the call fails with the plain \<^verbatim>\<open>Error\<close> of the repository; the second call succeeds
  and no call fails with InsufficientQuantity.
\<close>

theorem contention_claim_fails:
  "total_quantity tshirt - getActiveReservedQuantity shop 99 7 - getConfirmedQuantity shop 7 = 1 \<and>
   length trio = 3 \<and>
   length (filter succeeded
     (outcomes (snd (interleave 600 trio_schedule (shop, map (\<lambda>req. (req, Lookup)) trio))))) = 3 \<and>
   length (filter insufficient
     (outcomes (snd (interleave 600 trio_schedule (shop, map (\<lambda>req. (req, Lookup)) trio))))) = 0 \<and>
   total_quantity hoodie - getActiveReservedQuantity boutique 200 8 - getConfirmedQuantity boutique 8 = 1 \<and>
   length pair = 2 \<and>
   length (filter succeeded
     (outcomes (snd (interleave 1 pair_schedule (boutique, map (\<lambda>req. (req, Lookup)) pair))))) = 2 \<and>
   length (filter insufficient
     (outcomes (snd (interleave 1 pair_schedule (boutique, map (\<lambda>req. (req, Lookup)) pair))))) = 0 \<and>
   length pair_long = 2 \<and>
   outcomes (snd (interleave 600 pair_schedule (boutique, map (\<lambda>req. (req, Lookup)) pair_long))) ! 0 =
     Inl (Error ''Failed to create reservation'') \<and>
   length (filter succeeded
     (outcomes (snd (interleave 600 pair_schedule (boutique, map (\<lambda>req. (req, Lookup)) pair_long))))) = 1 \<and>
   length (filter insufficient
     (outcomes (snd (interleave 600 pair_schedule (boutique, map (\<lambda>req. (req, Lookup)) pair_long))))) = 0"
proof -
  have a1: "total_quantity tshirt - getActiveReservedQuantity shop 99 7 - getConfirmedQuantity shop 7 = 1"
    by (simp add: shop_committed tshirt_def)
  have a2: "total_quantity hoodie - getActiveReservedQuantity boutique 200 8 - getConfirmedQuantity boutique 8 = 1"
    by (simp add: storage_defs fixture_defs)
  have t: "outcomes (snd (interleave 600 trio_schedule (shop, map (\<lambda>req. (req, Lookup)) trio))) =
     [Inr ((new_reservation shop 99 7 ''a'' 1 PENDING 699)\<lparr> r_id := 16 \<rparr>),
      Inr ((new_reservation shop 100 7 ''b'' 1 PENDING 700)\<lparr> r_id := 17 \<rparr>),
      Inr ((new_reservation shop 101 7 ''c'' 1 PENDING 701)\<lparr> r_id := 18 \<rparr>)]"
    by (simp add: trio_def trio_schedule_def storage_defs fixture_defs)
  have p: "outcomes (snd (interleave 1 pair_schedule (boutique, map (\<lambda>req. (req, Lookup)) pair))) =
     [Inr ((new_reservation boutique 200 8 ''a'' 1 PENDING 201)\<lparr> r_id := 22 \<rparr>),
      Inr ((new_reservation boutique 201 8 ''b'' 1 PENDING 202)\<lparr> r_id := 23 \<rparr>)]"
    by (simp add: pair_def pair_schedule_def storage_defs fixture_defs)
  have l: "outcomes (snd (interleave 600 pair_schedule (boutique, map (\<lambda>req. (req, Lookup)) pair_long))) =
     [Inl (Error ''Failed to create reservation''),
      Inr ((new_reservation boutique 201 8 ''b'' 1 PENDING 801)\<lparr> r_id := 22 \<rparr>)]"
    by (simp add: pair_long_def pair_schedule_def storage_defs fixture_defs)
  show ?thesis
    unfolding t p l a1 a2
    by (simp add: trio_def pair_def pair_long_def succeeded_def insufficient_def new_reservation_def)
qed

text \<open>
  C3, as amended. CreateReservation with a quantity from 1 to 2147483647 and a customer id
  of at most 255 characters, when the expiry the service computes is still ahead at the
  moment the database decides and the sums over the item's reservations fit an
  \<^verbatim>\<open>INTEGER\<close>: if no item has the id it fails with ItemNotFound; otherwise, if the
  item's available quantity at the moment the database decides (total minus
  PENDING-unexpired minus CONFIRMED) is less than the quantity, it fails with
  InsufficientQuantity, reporting the quantity requested and the quantity available when
  the service reads it again afterwards; otherwise it stores and returns a new
  reservation, under an id that no stored reservation has, with status PENDING,
  \<open>created_at\<close> the time of the database and \<open>expires_at\<close> the time the service read
  before the call plus the expiry duration.
\<close>

theorem createReservation_contract:
  assumes "0 < q" and "q \<le> 2147483647" and "length c \<le> 255"
    and "t_sql < t_exp + expiry_ms" and "sums_fit db t_sql i"
  shows "createReservation expiry_ms t_exp t_sql t_read db i c q =
    (case item_findById db i of
       None \<Rightarrow> (db, Inl ITEM_NOT_FOUND)
     | Some it \<Rightarrow>
        if total_quantity it - getActiveReservedQuantity db t_sql i - getConfirmedQuantity db i < q
          then (db, Inl (INSUFFICIENT_QUANTITY q
                  (total_quantity it - getActiveReservedQuantity db t_read i - getConfirmedQuantity db i)))
        else (db\<lparr> reservations := reservations db @
                  [\<lparr> r_id = uuid_generate_v4 (map r_id (reservations db)),
                     item_id = i, customer_id = c, quantity = q, status = PENDING,
                     expires_at = t_exp + expiry_ms, created_at = t_sql,
                     confirmed_at = None, cancelled_at = None, expired_at = None \<rparr>] \<rparr>,
              Inr \<lparr> r_id = uuid_generate_v4 (map r_id (reservations db)),
                     item_id = i, customer_id = c, quantity = q, status = PENDING,
                     expires_at = t_exp + expiry_ms, created_at = t_sql,
                     confirmed_at = None, cancelled_at = None, expired_at = None \<rparr>)) \<and>
    findById db (uuid_generate_v4 (map r_id (reservations db))) = None"
proof -
  have new: "findById db (uuid_generate_v4 (map r_id (reservations db))) = None"
    using filter_fresh_key[OF uuid_generate_v4_fresh[of "map r_id (reservations db)"]]
    by (simp add: findById_def single_def)
  have q: "int4 q" using assms(1,2) by (simp add: int4_def)
  show ?thesis
  proof (cases "item_findById db i")
    case None
    with new show ?thesis by (simp add: createReservation_not_found)
  next
    case (Some it)
    with assms q new show ?thesis
      by (simp add: createReservation_found[OF Some] varchar255_short new_reservation_def)
  qed
qed

theorem createReservation_contract_witness:
  "(0::int) < 2 \<and> (2::int) \<le> 2147483647 \<and> length ''customer_002'' \<le> 255 \<and>
   (203::int) < 200 + 600 \<and> sums_fit shop 203 7 \<and> sums_fit shop 99 7 \<and> sums_fit shop 203 8 \<and>
   createReservation 600 200 203 205 shop 7 ''customer_002'' 2 =
     (shop\<lparr> reservations := reservations shop @
        [\<lparr> r_id = 16, item_id = 7, customer_id = ''customer_002'', quantity = 2, status = PENDING,
           expires_at = 800, created_at = 203,
           confirmed_at = None, cancelled_at = None, expired_at = None \<rparr>] \<rparr>,
      Inr \<lparr> r_id = 16, item_id = 7, customer_id = ''customer_002'', quantity = 2, status = PENDING,
            expires_at = 800, created_at = 203,
            confirmed_at = None, cancelled_at = None, expired_at = None \<rparr>) \<and>
   createReservation 600 200 203 205 shop 7 ''customer_002'' 5 =
     (shop, Inl (INSUFFICIENT_QUANTITY 5 4)) \<and>
   createReservation 600 98 99 100 shop 7 ''customer_002'' 2 =
     (shop, Inl (INSUFFICIENT_QUANTITY 2 4)) \<and>
   createReservation 600 200 203 205 shop 8 ''customer_002'' 2 = (shop, Inl ITEM_NOT_FOUND)"
proof -
  have n: "item_findById shop 8 = None"
    by (simp add: item_findById_def shop_def tshirt_def single_def)
  have r: "getActiveReservedQuantity shop 203 7 = 3" "getActiveReservedQuantity shop 205 7 = 3"
    by (simp_all add: getActiveReservedQuantity_def sum_quantity_def shop_def hold_def)
  have f: "sums_fit shop 203 7" "sums_fit shop 99 7"
    by (simp_all add: sums_fit_found[OF shop_items] shop_committed r tshirt_def int4_def)
  have g: "sums_fit shop 203 8" by (simp add: sums_fit_def n)
  have p: "(0::int) < 2" "(2::int) \<le> 2147483647" "(0::int) < 5" "(5::int) \<le> 2147483647"
    "length ''customer_002'' \<le> 255" "(203::int) < 200 + 600" "(99::int) < 98 + 600"
    by simp_all
  from createReservation_contract[OF p(1) p(2) p(5) p(6) f(1), of 205]
       createReservation_contract[OF p(3) p(4) p(5) p(6) f(1), of 205]
       createReservation_contract[OF p(1) p(2) p(5) p(7) f(2), of 100]
       createReservation_contract[OF p(1) p(2) p(5) p(6) g, of 205]
       f g
  show ?thesis
    by (simp add: shop_items shop_committed r shop_next_key n tshirt_def)
qed

text \<open>
  C3, as claimed, fails, each time on the shop, where the item has four units available
  from 100 on and one unit at 99. A quantity of 2147483648 passes the validator and is not
  an \<^verbatim>\<open>INTEGER\<close>: the call fails with the plain \<^verbatim>\<open>Error\<close> of the repository, and so
  does a call with a customer id of 256 characters and a call under an expiry duration of
  zero. A call for two units that the database decides at 99 is turned away, and the
  service, reading at 100, reports four units available for the two requested. A call
  whose expiry the service computes at 200 and that the database inserts at 203 gets
  \<open>created_at = 203\<close> and \<open>expires_at = 800\<close>. In the glut the rows satisfy the
  schema, the item has less available than the two units requested, and the call fails
  with the plain \<^verbatim>\<open>Error\<close>: the sum of the confirmed quantities is not an
  \<^verbatim>\<open>INTEGER\<close>.
\<close>

theorem createReservation_claim_fails:
  "createReservation 600 200 200 200 shop 7 ''customer_002'' 2147483648 =
     (shop, Inl (Error ''Failed to create reservation'')) \<and>
   createReservation 600 200 200 200 shop 7 (replicate 256 (CHR ''a'')) 2 =
     (shop, Inl (Error ''Failed to create reservation'')) \<and>
   createReservation 0 200 200 200 shop 7 ''customer_002'' 2 =
     (shop, Inl (Error ''Failed to create reservation'')) \<and>
   total_quantity tshirt - getActiveReservedQuantity shop 99 7 - getConfirmedQuantity shop 7 = 1 \<and>
   createReservation 600 99 99 100 shop 7 ''customer_002'' 2 =
     (shop, Inl (INSUFFICIENT_QUANTITY 2 4)) \<and>
   snd (createReservation 600 200 203 203 shop 7 ''customer_002'' 2) =
     Inr \<lparr> r_id = 16, item_id = 7, customer_id = ''customer_002'', quantity = 2, status = PENDING,
           expires_at = 800, created_at = 203,
           confirmed_at = None, cancelled_at = None, expired_at = None \<rparr> \<and>
   columns_ok glut \<and>
   total_quantity tshirt - getActiveReservedQuantity glut 200 7 - getConfirmedQuantity glut 7 < 2 \<and>
   createReservation 600 200 200 200 glut 7 ''customer_002'' 2 =
     (glut, Inl (Error ''Failed to create reservation''))"
proof -
  have r: "getActiveReservedQuantity shop 203 7 = 3"
    by (simp add: getActiveReservedQuantity_def sum_quantity_def shop_def hold_def)
  have f: "sums_fit shop 203 7"
    by (simp add: sums_fit_found[OF shop_items] shop_committed r tshirt_def int4_def)
  have g: "\<not> sums_fit glut 200 7"
    unfolding sums_fit_found[OF glut_items]
    by (simp add: getActiveReservedQuantity_def getConfirmedQuantity_def sum_quantity_def
        glut_def hold_def tshirt_def int4_def)
  have c: "columns_ok glut"
    by (simp add: columns_ok_def glut_def tshirt_def hold_def int4_def)
  have a: "total_quantity tshirt - getActiveReservedQuantity glut 200 7 - getConfirmedQuantity glut 7 < 2"
    by (simp add: getActiveReservedQuantity_def getConfirmedQuantity_def sum_quantity_def
        glut_def hold_def tshirt_def)
  have v: "varchar255 (replicate 256 (CHR ''a'')) = None"
    by (simp add: varchar255_def)
  have i: "int4 2" "\<not> int4 2147483648" by (simp_all add: int4_def)
  show ?thesis
    unfolding createReservation_found[OF shop_items] createReservation_found[OF glut_items]
    using a c
    by (simp add: shop_sums_fit shop_committed r f g v i shop_next_key tshirt_def
        varchar255_short new_reservation_def)
qed

text \<open>
  C6. For a reservation whose status is CONFIRMED, Confirm returns the stored reservation
  unchanged, with its original \<open>confirmed_at\<close>, and changes no state. Hence after a
  Confirm that succeeded, a second Confirm, at any later readings of the clock, returns the
  same CONFIRMED reservation with the same \<open>confirmed_at\<close> and leaves the database, and
  with it the availability of the item, as the first call left it.
\<close>

theorem confirm_idempotent:
  "(findById db rid = Some r \<and> status r = CONFIRMED \<longrightarrow>
      confirmReservation tc ts tg db rid = (db, Inr r)) \<and>
   (confirmReservation tc ts tg db rid = (db1, Inr r1) \<longrightarrow>
      status r1 = CONFIRMED \<and> confirmReservation tc' ts' tg' db1 rid = (db1, Inr r1))"
proof (intro conjI impI)
  assume "findById db rid = Some r \<and> status r = CONFIRMED"
  then show "confirmReservation tc ts tg db rid = (db, Inr r)"
    by (simp add: confirm_alone_found)
next
  assume a: "confirmReservation tc ts tg db rid = (db1, Inr r1)"
  from confirm_alone_success[OF a] show "status r1 = CONFIRMED" by simp
  from confirm_alone_success[OF a] show "confirmReservation tc' ts' tg' db1 rid = (db1, Inr r1)"
    by (simp add: confirm_alone_found)
qed

theorem confirm_idempotent_witness:
  "findById shop 12 = Some ((hold 12 CONFIRMED 600)\<lparr> confirmed_at := Some 50 \<rparr>) \<and>
   confirmReservation 200 200 200 shop 12 = (shop, Inr ((hold 12 CONFIRMED 600)\<lparr> confirmed_at := Some 50 \<rparr>)) \<and>
   confirmReservation 200 200 200 shop 11 =
     (fst (confirmReservation 200 200 200 shop 11),
      Inr ((hold 11 PENDING 600)\<lparr> status := CONFIRMED, confirmed_at := Some 200 \<rparr>)) \<and>
   confirmReservation 300 300 300 (fst (confirmReservation 200 200 200 shop 11)) 11 =
     (fst (confirmReservation 200 200 200 shop 11),
      Inr ((hold 11 PENDING 600)\<lparr> status := CONFIRMED, confirmed_at := Some 200 \<rparr>))"
proof -
  let ?r2 = "(hold 12 CONFIRMED 600)\<lparr> confirmed_at := Some 50 \<rparr>"
  let ?r1 = "(hold 11 PENDING 600)\<lparr> status := CONFIRMED, confirmed_at := Some 200 \<rparr>"
  have h1: "findById shop 12 = Some ?r2 \<and> status ?r2 = CONFIRMED"
    by (simp add: shop_holds hold_def)
  have h2: "confirmReservation 200 200 200 shop 11 = (fst (confirmReservation 200 200 200 shop 11), Inr ?r1)"
    by (simp add: confirm_alone_found[OF shop_holds(1)] hold_def)
  from confirm_idempotent[of shop 12 ?r2 200 200 200] h1
       confirm_idempotent[of shop 11 _ 200 200 200 "fst (confirmReservation 200 200 200 shop 11)" ?r1 300 300 300] h2
  show ?thesis by simp
qed

text \<open>
  C7. Cancel: if no reservation has the id it fails with NotFound; if the status is
  CANCELLED or EXPIRED it returns the reservation unchanged as a success; if the status is
  CONFIRMED it fails with InvalidTransition naming CONFIRMED; otherwise (PENDING) it
  sets the status of that reservation to CANCELLED and \<open>cancelled_at\<close> to now, leaves every
  other row as it was, and returns the cancelled reservation.
\<close>

theorem cancel_case_analysis:
  "(findById db rid = None \<longrightarrow> cancelReservation now db rid = (db, Inl RESERVATION_NOT_FOUND)) \<and>
   (findById db rid = Some r \<longrightarrow>
      (status r = CANCELLED \<or> status r = EXPIRED \<longrightarrow> cancelReservation now db rid = (db, Inr r)) \<and>
      (status r = CONFIRMED \<longrightarrow>
         cancelReservation now db rid = (db, Inl (INVALID_STATUS_TRANSITION CONFIRMED))) \<and>
      (status r = PENDING \<longrightarrow>
         cancelReservation now db rid =
           (db\<lparr> reservations :=
                  map (\<lambda>x. if r_id x = rid then x\<lparr> status := CANCELLED, cancelled_at := Some now \<rparr> else x)
                    (reservations db) \<rparr>,
            Inr (r\<lparr> status := CANCELLED, cancelled_at := Some now \<rparr>))))"
proof (intro conjI impI)
  assume "findById db rid = None"
  then show "cancelReservation now db rid = (db, Inl RESERVATION_NOT_FOUND)"
    by (simp add: cancelReservation_def cancelReservation_among_def)
next
  assume "findById db rid = Some r" and "status r = CANCELLED \<or> status r = EXPIRED"
  then show "cancelReservation now db rid = (db, Inr r)"
    by (simp add: cancel_alone_found)
next
  assume "findById db rid = Some r" and "status r = CONFIRMED"
  then show "cancelReservation now db rid = (db, Inl (INVALID_STATUS_TRANSITION CONFIRMED))"
    by (simp add: cancel_alone_found)
next
  assume f: "findById db rid = Some r" and p: "status r = PENDING"
  from f p show "cancelReservation now db rid =
           (db\<lparr> reservations :=
                  map (\<lambda>x. if r_id x = rid then x\<lparr> status := CANCELLED, cancelled_at := Some now \<rparr> else x)
                    (reservations db) \<rparr>,
            Inr (r\<lparr> status := CANCELLED, cancelled_at := Some now \<rparr>))"
    by (simp add: cancel_alone_found update_where_key_only[OF f, of "\<lambda>x. status x = PENDING"])
qed

theorem cancel_case_analysis_witness:
  "cancelReservation 200 shop 99 = (shop, Inl RESERVATION_NOT_FOUND) \<and>
   cancelReservation 200 shop 13 = (shop, Inr ((hold 13 CANCELLED 600)\<lparr> cancelled_at := Some 60 \<rparr>)) \<and>
   cancelReservation 200 shop 14 = (shop, Inr ((hold 14 EXPIRED 70)\<lparr> expired_at := Some 80 \<rparr>)) \<and>
   cancelReservation 200 shop 12 = (shop, Inl (INVALID_STATUS_TRANSITION CONFIRMED)) \<and>
   cancelReservation 200 shop 11 =
     (shop\<lparr> reservations :=
        [(hold 11 CANCELLED 600)\<lparr> cancelled_at := Some 200 \<rparr>,
         (hold 12 CONFIRMED 600)\<lparr> confirmed_at := Some 50 \<rparr>,
         (hold 13 CANCELLED 600)\<lparr> cancelled_at := Some 60 \<rparr>,
         (hold 14 EXPIRED 70)\<lparr> expired_at := Some 80 \<rparr>,
         hold 15 PENDING 100] \<rparr>,
      Inr ((hold 11 CANCELLED 600)\<lparr> cancelled_at := Some 200 \<rparr>))"
  using cancel_case_analysis[of shop 99 200]
    cancel_case_analysis[of shop 13 200 "(hold 13 CANCELLED 600)\<lparr> cancelled_at := Some 60 \<rparr>"]
    cancel_case_analysis[of shop 14 200 "(hold 14 EXPIRED 70)\<lparr> expired_at := Some 80 \<rparr>"]
    cancel_case_analysis[of shop 12 200 "(hold 12 CONFIRMED 600)\<lparr> confirmed_at := Some 50 \<rparr>"]
    cancel_case_analysis[of shop 11 200 "hold 11 PENDING 600"]
  by (simp add: shop_holds) (simp add: shop_def hold_def)

text \<open>
  C8. ExpireDue sets every reservation with status PENDING and \<open>expires_at\<close> at or before
  the reading of the clock in its guard to EXPIRED, with \<open>expired_at\<close> the reading of the
  clock in its assignment, in one update over the table that leaves every other row as it
  was. In whatever order the database returns the rows, the ids it returns are the ids of
  exactly the rows it changed, as many as it changed, and the count is their number. When
  no reservation is due it returns the count 0 and no ids, with the database unchanged: a
  result, not an error.
\<close>

theorem expire_due:
  "fst (expireReservations order t_set t_guard db) =
     db\<lparr> reservations :=
            map (\<lambda>r. if status r = PENDING \<and> expires_at r \<le> t_guard
                     then r\<lparr> status := EXPIRED, expired_at := Some t_set \<rparr> else r) (reservations db) \<rparr> \<and>
   set (expiredReservationIds (snd (expireReservations order t_set t_guard db))) =
     set (map r_id (filter (\<lambda>r. status r = PENDING \<and> expires_at r \<le> t_guard) (reservations db))) \<and>
   length (expiredReservationIds (snd (expireReservations order t_set t_guard db))) =
     length (filter (\<lambda>r. status r = PENDING \<and> expires_at r \<le> t_guard) (reservations db)) \<and>
   expiredCount (snd (expireReservations order t_set t_guard db)) =
     length (filter (\<lambda>r. status r = PENDING \<and> expires_at r \<le> t_guard) (reservations db)) \<and>
   ((\<forall>r \<in> set (reservations db). \<not> (status r = PENDING \<and> expires_at r \<le> t_guard)) \<longrightarrow>
      expireReservations order t_set t_guard db =
        (db, \<lparr> expiredCount = 0, expiredReservationIds = [] \<rparr>))"
proof (intro conjI impI)
  let ?due = "\<lambda>r. status r = PENDING \<and> expires_at r \<le> t_guard"
  let ?set = "\<lambda>r. r\<lparr> status := EXPIRED, expired_at := Some t_set \<rparr>"
  show "fst (expireReservations order t_set t_guard db) =
     db\<lparr> reservations := map (\<lambda>r. if ?due r then ?set r else r) (reservations db) \<rparr>"
    by (simp add: expireReservations_def repo_expireReservations_def Let_def update_where_def)
  have "r_id ` set (map ?set (filter ?due (reservations db))) = r_id ` set (filter ?due (reservations db))"
    by (auto simp: image_iff)
  then show "set (expiredReservationIds (snd (expireReservations order t_set t_guard db))) =
     set (map r_id (filter ?due (reservations db)))"
    by (simp add: expireReservations_def repo_expireReservations_def Let_def)
  show "length (expiredReservationIds (snd (expireReservations order t_set t_guard db))) =
     length (filter ?due (reservations db))"
    by (simp add: expireReservations_def repo_expireReservations_def Let_def)
  show "expiredCount (snd (expireReservations order t_set t_guard db)) =
     length (filter ?due (reservations db))"
    by (simp add: expireReservations_def repo_expireReservations_def Let_def)
next
  assume none: "\<forall>r \<in> set (reservations db). \<not> (status r = PENDING \<and> expires_at r \<le> t_guard)"
  then have 1: "filter (\<lambda>r. status r = PENDING \<and> expires_at r \<le> t_guard) (reservations db) = []"
    by (auto simp: filter_empty_conv)
  from none have 2: "update_where (\<lambda>r. status r = PENDING \<and> expires_at r \<le> t_guard)
      (\<lambda>r. r\<lparr> status := EXPIRED, expired_at := Some t_set \<rparr>) (reservations db) = reservations db"
    unfolding update_where_def by (intro map_idI) auto
  show "expireReservations order t_set t_guard db =
          (db, \<lparr> expiredCount = 0, expiredReservationIds = [] \<rparr>)"
    by (simp add: expireReservations_def repo_expireReservations_def Let_def 1 2)
qed

theorem expire_due_witness:
  "fst (expireReservations (\<lambda>r. 100 - r_id r) 699 700 shop) =
     shop\<lparr> reservations :=
        [(hold 11 EXPIRED 600)\<lparr> expired_at := Some 699 \<rparr>,
         (hold 12 CONFIRMED 600)\<lparr> confirmed_at := Some 50 \<rparr>,
         (hold 13 CANCELLED 600)\<lparr> cancelled_at := Some 60 \<rparr>,
         (hold 14 EXPIRED 70)\<lparr> expired_at := Some 80 \<rparr>,
         (hold 15 EXPIRED 100)\<lparr> expired_at := Some 699 \<rparr>] \<rparr> \<and>
   expiredReservationIds (snd (expireReservations (\<lambda>r. 100 - r_id r) 699 700 shop)) = [15, 11] \<and>
   expiredReservationIds (snd (expireReservations r_id 699 700 shop)) = [11, 15] \<and>
   set (expiredReservationIds (snd (expireReservations (\<lambda>r. 100 - r_id r) 699 700 shop))) = {11, 15} \<and>
   length (expiredReservationIds (snd (expireReservations (\<lambda>r. 100 - r_id r) 699 700 shop))) = 2 \<and>
   expiredCount (snd (expireReservations (\<lambda>r. 100 - r_id r) 699 700 shop)) = 2 \<and>
   list_all (\<lambda>r. \<not> (status r = PENDING \<and> expires_at r \<le> 90)) (reservations shop) \<and>
   expireReservations r_id 90 90 shop = (shop, \<lparr> expiredCount = 0, expiredReservationIds = [] \<rparr>)"
proof -
  have h: "\<forall>r \<in> set (reservations shop). \<not> (status r = PENDING \<and> expires_at r \<le> 90)"
    by (simp add: shop_def hold_def)
  have o: "expiredReservationIds (snd (expireReservations (\<lambda>r. 100 - r_id r) 699 700 shop)) = [15, 11]"
    "expiredReservationIds (snd (expireReservations r_id 699 700 shop)) = [11, 15]"
    by (simp_all add: expireReservations_def repo_expireReservations_def Let_def shop_def hold_def)
  from expire_due[of "\<lambda>r. 100 - r_id r" 699 700 shop] expire_due[of r_id 90 90 shop] h o
  show ?thesis
    by (simp add: shop_def hold_def)
qed

text \<open>
  C9. CreateReservation is atomic on failure: whenever it fails, with InsufficientQuantity,
  with ItemNotFound or with any other error, the database it leaves is the one it was
  given; no reservation is created.
\<close>

theorem createReservation_failure_atomic:
  assumes "createReservation expiry_ms t_exp t_sql t_read db i c q = (db', Inl e)"
  shows "db' = db"
proof (cases "item_findById db i")
  case None
  with assms show ?thesis by (simp add: createReservation_not_found)
next
  case (Some it)
  from assms show ?thesis
    unfolding createReservation_found[OF Some] by (simp split: if_splits option.splits)
qed

theorem createReservation_failure_atomic_witness:
  "createReservation 600 200 200 200 shop 7 ''customer_002'' 5 =
     (fst (createReservation 600 200 200 200 shop 7 ''customer_002'' 5), Inl (INSUFFICIENT_QUANTITY 5 4)) \<and>
   fst (createReservation 600 200 200 200 shop 7 ''customer_002'' 5) = shop"
proof -
  have i: "int4 5" by (simp add: int4_def)
  have h: "createReservation 600 200 200 200 shop 7 ''customer_002'' 5 =
     (fst (createReservation 600 200 200 200 shop 7 ''customer_002'' 5), Inl (INSUFFICIENT_QUANTITY 5 4))"
    by (simp add: createReservation_found[OF shop_items] shop_sums_fit i shop_committed tshirt_def)
  from createReservation_failure_atomic[OF h] h show ?thesis by simp
qed

text \<open>
  C10. Cancel never looks at \<open>expires_at\<close>: for every reservation whose status is PENDING,
  also one whose expiry has passed and that has not been swept, Cancel succeeds and stores
  it as CANCELLED with \<open>cancelled_at = now\<close>; an ExpireDue that follows, whenever it runs
  and in whatever order the database returns its rows, does not list it and leaves it
  CANCELLED.
\<close>

theorem cancel_ignores_expiry:
  assumes "findById db rid = Some r" and "status r = PENDING"
  shows "snd (cancelReservation now db rid) =
           Inr (r\<lparr> status := CANCELLED, cancelled_at := Some now \<rparr>) \<and>
         findById (fst (cancelReservation now db rid)) rid =
           Some (r\<lparr> status := CANCELLED, cancelled_at := Some now \<rparr>) \<and>
         rid \<notin> set (expiredReservationIds
                      (snd (expireReservations order ts tg (fst (cancelReservation now db rid))))) \<and>
         findById (fst (expireReservations order ts tg (fst (cancelReservation now db rid)))) rid =
           Some (r\<lparr> status := CANCELLED, cancelled_at := Some now \<rparr>)"
proof -
  let ?r' = "r\<lparr> status := CANCELLED, cancelled_at := Some now \<rparr>"
  let ?db' = "fst (cancelReservation now db rid)"
  have c: "snd (cancelReservation now db rid) = Inr ?r'"
    using assms by (simp add: cancel_alone_found)
  have f: "findById ?db' rid = Some ?r'"
    using assms findById_key[OF assms(1)] by (simp add: cancel_alone_found findById_update_where)
  have e: "findById (fst (expireReservations order ts tg ?db')) rid = Some ?r'"
    by (simp add: expire_found f)
  have "\<And>x. x \<in> set (reservations ?db') \<Longrightarrow> r_id x = rid \<Longrightarrow> status x = CANCELLED"
    using findById_only[OF f] by fastforce
  then have n: "rid \<notin> set (expiredReservationIds (snd (expireReservations order ts tg ?db')))"
    by (fastforce simp: expireReservations_def repo_expireReservations_def Let_def)
  from c f n e show ?thesis by blast
qed

theorem cancel_ignores_expiry_witness:
  "findById shop 15 = Some (hold 15 PENDING 100) \<and> status (hold 15 PENDING 100) = PENDING \<and>
   expires_at (hold 15 PENDING 100) \<le> 200 \<and>
   snd (cancelReservation 200 shop 15) = Inr ((hold 15 CANCELLED 100)\<lparr> cancelled_at := Some 200 \<rparr>) \<and>
   findById (fst (cancelReservation 200 shop 15)) 15 = Some ((hold 15 CANCELLED 100)\<lparr> cancelled_at := Some 200 \<rparr>) \<and>
   15 \<notin> set (expiredReservationIds (snd (expireReservations r_id 300 300 (fst (cancelReservation 200 shop 15))))) \<and>
   findById (fst (expireReservations r_id 300 300 (fst (cancelReservation 200 shop 15)))) 15 =
     Some ((hold 15 CANCELLED 100)\<lparr> cancelled_at := Some 200 \<rparr>)"
proof -
  have h: "status (hold 15 PENDING 100) = PENDING" "expires_at (hold 15 PENDING 100) \<le> 200"
    by (simp_all add: hold_def)
  have eq: "(hold 15 PENDING 100)\<lparr> status := CANCELLED, cancelled_at := Some 200 \<rparr> =
            (hold 15 CANCELLED 100)\<lparr> cancelled_at := Some 200 \<rparr>"
    by (simp add: hold_def)
  from cancel_ignores_expiry[OF shop_holds(5) h(1), of 200 r_id 300 300] shop_holds(5) h
  show ?thesis unfolding eq by simp
qed


lemma confirm_lapsed:
  assumes "findById db rid = Some r" and "status r = PENDING" and "expires_at r \<le> now"
  shows "confirmReservation now now now db rid =
           (db, Inl (if expires_at r < now then RESERVATION_EXPIRED (expires_at r)
                     else CONFIRMATION_FAILED))"
  using assms by (simp add: confirm_alone_found)

text \<open>
  C4. The claim: for every PENDING reservation with \<open>expires_at \<le> now\<close>, Confirm fails with
  Expired and leaves the state unchanged. The service compares with \<^verbatim>\<open><\<close> where the
  guarded update and the sweep draw the line at \<^verbatim>\<open>expires_at > now\<close> and
  \<^verbatim>\<open>expires_at <= now\<close>: at the instant of expiry itself the check lets the request
  through, the update applies to no row, and the answer is \<^verbatim>\<open>CONFIRMATION_FAILED\<close>.
  One millisecond later the answer is \<^verbatim>\<open>RESERVATION_EXPIRED\<close>. The state is unchanged
  in both cases.
\<close>

theorem confirm_at_expiry_instant:
  "findById shop 15 = Some (hold 15 PENDING 100) \<and>
   expires_at (hold 15 PENDING 100) = 100 \<and>
   confirmReservation 100 100 100 shop 15 = (shop, Inl CONFIRMATION_FAILED) \<and>
   confirmReservation 101 101 101 shop 15 = (shop, Inl (RESERVATION_EXPIRED 100))"
  by (simp add: shop_holds confirm_alone_found[OF shop_holds(5)]) (simp add: hold_def)

text \<open>
  C5, as amended. For both Confirm and Cancel, whenever the guarded update applies to no
  row, the operation reads the reservation again, whatever other requests have done to the
  database in between, and itself changes nothing. Confirm returns the reservation as a
  success when it is now CONFIRMED and fails with \<^verbatim>\<open>CONFIRMATION_FAILED\<close> otherwise;
  Cancel returns it as a success when it is now CANCELLED or EXPIRED and fails with
  \<^verbatim>\<open>CANCELLATION_FAILED\<close> otherwise. Neither failure names the state observed.
\<close>

theorem lost_race_resolution:
  "(findById db rid = Some existing \<and> status existing = PENDING \<and> \<not> expires_at existing < t_check \<and>
      snd (repo_confirmReservation (others1 db) t_set t_guard rid) = None \<longrightarrow>
    confirmReservation_among others1 others2 t_check t_set t_guard db rid =
      (others2 (others1 db),
       case findById (others2 (others1 db)) rid of
         None \<Rightarrow> Inl CONFIRMATION_FAILED
       | Some current \<Rightarrow>
           if status current = CONFIRMED then Inr current else Inl CONFIRMATION_FAILED)) \<and>
   (findById db rid = Some existing \<and> status existing = PENDING \<and>
      snd (repo_cancelReservation (others1 db) t_set rid) = None \<longrightarrow>
    cancelReservation_among others1 others2 t_set db rid =
      (others2 (others1 db),
       case findById (others2 (others1 db)) rid of
         None \<Rightarrow> Inl CANCELLATION_FAILED
       | Some current \<Rightarrow>
           if status current = CANCELLED \<or> status current = EXPIRED then Inr current
           else Inl CANCELLATION_FAILED))"
proof (intro conjI impI)
  assume a: "findById db rid = Some existing \<and> status existing = PENDING \<and>
             \<not> expires_at existing < t_check \<and>
             snd (repo_confirmReservation (others1 db) t_set t_guard rid) = None"
  then have z: "repo_confirmReservation (others1 db) t_set t_guard rid = (others1 db, None)"
    by (simp add: repo_confirm_zero_rows)
  from a show "confirmReservation_among others1 others2 t_check t_set t_guard db rid =
      (others2 (others1 db),
       case findById (others2 (others1 db)) rid of
         None \<Rightarrow> Inl CONFIRMATION_FAILED
       | Some current \<Rightarrow>
           if status current = CONFIRMED then Inr current else Inl CONFIRMATION_FAILED)"
    by (simp add: confirmReservation_among_def z Let_def split: option.splits)
next
  assume a: "findById db rid = Some existing \<and> status existing = PENDING \<and>
             snd (repo_cancelReservation (others1 db) t_set rid) = None"
  then have z: "repo_cancelReservation (others1 db) t_set rid = (others1 db, None)"
    by (simp add: repo_cancel_zero_rows)
  from a show "cancelReservation_among others1 others2 t_set db rid =
      (others2 (others1 db),
       case findById (others2 (others1 db)) rid of
         None \<Rightarrow> Inl CANCELLATION_FAILED
       | Some current \<Rightarrow>
           if status current = CANCELLED \<or> status current = EXPIRED then Inr current
           else Inl CANCELLATION_FAILED)"
    by (simp add: cancelReservation_among_def z Let_def split: option.splits)
qed

theorem lost_race_resolution_witness:
  "findById shop 11 = Some (hold 11 PENDING 600) \<and> status (hold 11 PENDING 600) = PENDING \<and>
   \<not> expires_at (hold 11 PENDING 600) < 200 \<and>
   snd (repo_confirmReservation (rival_cancel shop) 200 200 11) = None \<and>
   confirmReservation_among rival_cancel id 200 200 200 shop 11 =
     (rival_cancel shop, Inl CONFIRMATION_FAILED) \<and>
   snd (repo_cancelReservation (rival_cancel shop) 200 11) = None \<and>
   cancelReservation_among rival_cancel id 200 shop 11 =
     (rival_cancel shop, Inr ((hold 11 CANCELLED 600)\<lparr> cancelled_at := Some 200 \<rparr>))"
proof -
  have f: "findById (rival_cancel shop) 11 = Some ((hold 11 CANCELLED 600)\<lparr> cancelled_at := Some 200 \<rparr>)"
    using shop_holds(1)
    by (simp add: rival_cancel_def cancel_alone_found[OF shop_holds(1)] findById_update_where hold_def)
  have h: "status (hold 11 PENDING 600) = PENDING" "\<not> expires_at (hold 11 PENDING 600) < 200"
    by (simp_all add: hold_def)
  have z1: "snd (repo_confirmReservation (rival_cancel shop) 200 200 11) = None"
    by (simp add: repo_confirm_found[OF f] hold_def)
  have z2: "snd (repo_cancelReservation (rival_cancel shop) 200 11) = None"
    by (simp add: repo_cancel_found[OF f] hold_def)
  from lost_race_resolution[of shop 11 "hold 11 PENDING 600" 200 rival_cancel 200 200 id]
    shop_holds(1) h z1 z2 f
  show ?thesis by (simp add: hold_def)
qed

text \<open>
  C5, as claimed, fails. Hold 11 is PENDING and unexpired. A Confirm reads it; a Cancel of
  another caller commits; the guarded update of the Confirm applies to no row; the Confirm
  reads CANCELLED and answers \<^verbatim>\<open>CONFIRMATION_FAILED\<close>, which neither returns the
  reservation nor is \<^verbatim>\<open>InvalidTransition\<close> naming CANCELLED. With the roles exchanged the
  Cancel reads CONFIRMED and answers \<^verbatim>\<open>CANCELLATION_FAILED\<close>.
\<close>

theorem lost_race_generic_failure:
  "snd (repo_confirmReservation (rival_cancel shop) 200 200 11) = None \<and>
   findById (fst (confirmReservation_among rival_cancel id 200 200 200 shop 11)) 11 =
     Some ((hold 11 CANCELLED 600)\<lparr> cancelled_at := Some 200 \<rparr>) \<and>
   snd (confirmReservation_among rival_cancel id 200 200 200 shop 11) = Inl CONFIRMATION_FAILED \<and>
   \<not> spec_race_resolution ((hold 11 CANCELLED 600)\<lparr> cancelled_at := Some 200 \<rparr>)
        (snd (confirmReservation_among rival_cancel id 200 200 200 shop 11)) \<and>
   snd (repo_cancelReservation (rival_confirm shop) 200 11) = None \<and>
   findById (fst (cancelReservation_among rival_confirm id 200 shop 11)) 11 =
     Some ((hold 11 CONFIRMED 600)\<lparr> confirmed_at := Some 200 \<rparr>) \<and>
   snd (cancelReservation_among rival_confirm id 200 shop 11) = Inl CANCELLATION_FAILED \<and>
   \<not> spec_race_resolution ((hold 11 CONFIRMED 600)\<lparr> confirmed_at := Some 200 \<rparr>)
        (snd (cancelReservation_among rival_confirm id 200 shop 11))"
proof -
  have f1: "findById (rival_cancel shop) 11 = Some ((hold 11 CANCELLED 600)\<lparr> cancelled_at := Some 200 \<rparr>)"
    using shop_holds(1)
    by (simp add: rival_cancel_def cancel_alone_found[OF shop_holds(1)] findById_update_where hold_def)
  have f2: "findById (rival_confirm shop) 11 = Some ((hold 11 CONFIRMED 600)\<lparr> confirmed_at := Some 200 \<rparr>)"
    using shop_holds(1)
    by (simp add: rival_confirm_def confirm_alone_found[OF shop_holds(1)] findById_update_where hold_def)
  have z1: "repo_confirmReservation (rival_cancel shop) 200 200 11 = (rival_cancel shop, None)"
    by (simp add: repo_confirm_found[OF f1] hold_def)
  have z2: "repo_cancelReservation (rival_confirm shop) 200 11 = (rival_confirm shop, None)"
    by (simp add: repo_cancel_found[OF f2] hold_def)
  have c1: "confirmReservation_among rival_cancel id 200 200 200 shop 11 =
              (rival_cancel shop, Inl CONFIRMATION_FAILED)"
    by (simp add: confirmReservation_among_def shop_holds(1) z1 f1) (simp add: hold_def)
  have c2: "cancelReservation_among rival_confirm id 200 shop 11 =
              (rival_confirm shop, Inl CANCELLATION_FAILED)"
    by (simp add: cancelReservation_among_def shop_holds(1) z2 f2) (simp add: hold_def)
  show ?thesis
    by (simp add: c1 c2 z1 z2 f1 f2 spec_race_resolution_def hold_def)
qed

end
